theory Spec2Isabelle
  imports Main
begin

section \<open>The MCP channel plugin (mcp_channel_plugin.cpp), embedded\<close>

text \<open>
  The plugin owns a Node.js child process, a table of pending requests keyed by request
  id, and at most one event sink. Every method of the C++ class becomes a function that
  takes the plugin state and returns the new one. What the operating system decides
  (whether the process starts, whether a write succeeds, what the clock reads) is an
  argument of the call. What the plugin does to the outside world is kept in three logs
  inside the state: the replies given to method results, the events given to event
  sinks, and the lines written to the child's standard input.

  The model is sequential: one call or one reader run at a time. The mutexes of the
  source protect exactly these units, so each function below is one critical section or
  a sequence of them run without interference.
\<close>

subsection \<open>std::string operations\<close>

text \<open>Position of the first occurrence of \<open>needle\<close> in \<open>hay\<close>.\<close>

primrec find_sub :: "string \<Rightarrow> string \<Rightarrow> nat option" where
  "find_sub needle [] = (if needle = [] then Some 0 else None)"
| "find_sub needle (c # cs) =
     (if take (length needle) (c # cs) = needle then Some 0
      else map_option Suc (find_sub needle cs))"

text \<open>\<^verbatim>\<open>s.find(needle, pos)\<close>; \<open>None\<close> is \<^verbatim>\<open>npos\<close>.\<close>

definition find_from :: "string \<Rightarrow> string \<Rightarrow> nat \<Rightarrow> nat option" where
  "find_from s needle pos =
     (if length s < pos then None
      else map_option (\<lambda>i. pos + i) (find_sub needle (drop pos s)))"

text \<open>\<^verbatim>\<open>s.find(needle)\<close>.\<close>

definition find_str :: "string \<Rightarrow> string \<Rightarrow> nat option" where
  "find_str s needle = find_from s needle 0"

text \<open>\<^verbatim>\<open>s.substr(pos, n)\<close>, used by the source only with \<open>pos \<le> length s\<close>.\<close>

definition substr :: "string \<Rightarrow> nat \<Rightarrow> nat \<Rightarrow> string" where
  "substr s pos n = take n (drop pos s)"

definition newline :: char where
  "newline = CHR 0x0A"

definition dquote :: char where
  "dquote = CHR 0x22"

text \<open>\<^verbatim>\<open>std::to_string\<close> on an integer: decimal digits, a minus sign when negative.\<close>

fun digits_of :: "nat \<Rightarrow> string" where
  "digits_of n =
     (if n < 10 then [char_of (48 + n)]
      else digits_of (n div 10) @ [char_of (48 + n mod 10)])"

definition to_string :: "int \<Rightarrow> string" where
  "to_string i = (if i < 0 then CHR ''-'' # digits_of (nat (- i)) else digits_of (nat i))"

subsection \<open>Values of the method channel\<close>

text \<open>
  \<^verbatim>\<open>flutter::EncodableValue\<close> is declared by the Flutter library. The alternatives
  the plugin inspects are kept apart; the others (typed byte and number vectors, custom
  values) are \<open>EvOther\<close>. An \<^verbatim>\<open>EncodableMap\<close> is a \<^verbatim>\<open>std::map\<close>: here the list of its
  entries in iteration order. A double is held as the text that \<^verbatim>\<open>ostream <<\<close> prints
  for it.
\<close>

datatype EncodableValue =
    EvNull
  | EvBool bool
  | EvInt32 int
  | EvInt64 int
  | EvDouble string
  | EvString string
  | EvList "EncodableValue list"
  | EvMap "(EncodableValue \<times> EncodableValue) list"
  | EvOther

type_synonym EncodableMap = "(EncodableValue \<times> EncodableValue) list"

text \<open>\<^verbatim>\<open>map.find(key)\<close>: the value stored under the key, if any.\<close>

definition map_find :: "EncodableMap \<Rightarrow> EncodableValue \<Rightarrow> EncodableValue option" where
  "map_find m k = map_of m k"

text \<open>
  \<^verbatim>\<open>std::get<std::string>\<close> on a value that holds no string throws
  \<^verbatim>\<open>std::bad_variant_access\<close>. None of the method handlers catches it.
\<close>

datatype exn = bad_variant_access

text \<open>The inner if-chain of \<^verbatim>\<open>EncodableValueToJsonString\<close>: one value of a map.\<close>

fun json_of_entry_value :: "EncodableValue \<Rightarrow> string" where
  "json_of_entry_value (EvString s) = [dquote] @ s @ [dquote]"
| "json_of_entry_value (EvInt32 i) = to_string i"
| "json_of_entry_value (EvBool b) = (if b then ''true'' else ''false'')"
| "json_of_entry_value (EvDouble d) = d"
| "json_of_entry_value _ = ''null''"

text \<open>The loop over the entries of the map; \<open>first\<close> is the loop's flag.\<close>

fun json_of_entries :: "bool \<Rightarrow> EncodableMap \<Rightarrow> exn + string" where
  "json_of_entries first [] = Inr []"
| "json_of_entries first ((key, val) # rest) =
     (case key of
        EvString key_str \<Rightarrow>
          (case json_of_entries False rest of
             Inl e \<Rightarrow> Inl e
           | Inr more \<Rightarrow>
               Inr ((if first then [] else '','') @ [dquote] @ key_str @ [dquote] @ '':''
                    @ json_of_entry_value val @ more))
      | _ \<Rightarrow> Inl bad_variant_access)"

fun EncodableValueToJsonString :: "EncodableValue \<Rightarrow> exn + string" where
  "EncodableValueToJsonString (EvMap m) =
     (case json_of_entries True m of
        Inl e \<Rightarrow> Inl e
      | Inr body \<Rightarrow> Inr (''{'' @ body @ ''}''))"
| "EncodableValueToJsonString (EvString s) = Inr ([dquote] @ s @ [dquote])"
| "EncodableValueToJsonString _ = Inr ''{}''"

text \<open>The placeholder conversion of the source: the line itself under the key "data".\<close>

definition JsonStringToEncodableValue :: "string \<Rightarrow> EncodableValue" where
  "JsonStringToEncodableValue json_str = EvMap [(EvString ''data'', EvString json_str)]"

subsection \<open>Method results and event sinks\<close>

text \<open>
  A \<^verbatim>\<open>MethodResult\<close> is the single-use completion slot of one caller, an
  \<^verbatim>\<open>EventSink\<close> the slot of one subscriber. Both are identified by a number; what is
  delivered to them is appended to a log.
\<close>

type_synonym result_handle = nat
type_synonym sink_handle = nat

datatype reply =
    Success EncodableValue
  | Error string string
  | NotImplemented

fun is_failure :: "reply \<Rightarrow> bool" where
  "is_failure (Error code msg) = True"
| "is_failure _ = False"

subsection \<open>NodeJsProcess\<close>

text \<open>
  A handle field is \<open>True\<close> when it differs from \<^verbatim>\<open>INVALID_HANDLE_VALUE\<close>;
  \<open>message_callback\<close> is \<open>True\<close> when the \<^verbatim>\<open>std::function\<close> is set (the only callback
  ever installed calls \<^verbatim>\<open>HandleNodeMessage\<close>).
\<close>

record NodeJsProcess =
  is_running :: bool
  child_stdin_write :: bool
  child_stdout_read :: bool
  child_stderr_read :: bool
  message_callback :: bool

definition NodeJsProcess_new :: NodeJsProcess where
  "NodeJsProcess_new =
     \<lparr>is_running = False, child_stdin_write = False, child_stdout_read = False,
      child_stderr_read = False, message_callback = False\<rparr>"

text \<open>
  What the system answers to \<^verbatim>\<open>Start\<close>: which of the three \<^verbatim>\<open>CreatePipe\<close> calls is the
  first to fail, or that \<^verbatim>\<open>CreateProcessA\<close> fails, or that the child is running.
\<close>

datatype spawn_result =
    StdoutPipeFailed
  | StdinPipeFailed
  | StderrPipeFailed
  | CreateProcessFailed
  | Spawned

fun Start :: "spawn_result \<Rightarrow> NodeJsProcess \<Rightarrow> bool \<times> NodeJsProcess" where
  "Start sp p =
     (if is_running p then (True, p)
      else case sp of
          StdoutPipeFailed \<Rightarrow> (False, p)
        | StdinPipeFailed \<Rightarrow> (False, p\<lparr>child_stdout_read := True\<rparr>)
        | StderrPipeFailed \<Rightarrow>
            (False, p\<lparr>child_stdout_read := True, child_stdin_write := True\<rparr>)
        | CreateProcessFailed \<Rightarrow>
            (False, p\<lparr>child_stdout_read := True, child_stdin_write := True,
                       child_stderr_read := True\<rparr>)
        | Spawned \<Rightarrow>
            (True, p\<lparr>child_stdout_read := True, child_stdin_write := True,
                      child_stderr_read := True, is_running := True\<rparr>))"

definition Stop :: "NodeJsProcess \<Rightarrow> NodeJsProcess" where
  "Stop p =
     (if \<not> is_running p then p
      else p\<lparr>is_running := False, child_stdin_write := False,
             child_stdout_read := False, child_stderr_read := False\<rparr>)"

definition IsRunning :: "NodeJsProcess \<Rightarrow> bool" where
  "IsRunning p = is_running p"

text \<open>\<open>write_ok\<close> is the result of \<^verbatim>\<open>WriteFile\<close>, asked for only when the guard passes.\<close>

definition SendMessage :: "bool \<Rightarrow> NodeJsProcess \<Rightarrow> string \<Rightarrow> bool" where
  "SendMessage write_ok p message =
     (if \<not> is_running p \<or> \<not> child_stdin_write p then False else write_ok)"

definition SetMessageCallback :: "NodeJsProcess \<Rightarrow> NodeJsProcess" where
  "SetMessageCallback p = p\<lparr>message_callback := True\<rparr>"

subsection \<open>The plugin state\<close>

record McpEventStreamHandler =
  event_sink :: "sink_handle option"

record McpChannelPlugin =
  is_initialized :: bool
  node_process :: NodeJsProcess
  pending_requests :: "string \<rightharpoonup> result_handle"
  stream_handler :: "McpEventStreamHandler option"
  mcp_script_path :: string
  replies :: "(result_handle \<times> reply) list"
  events :: "(sink_handle \<times> EncodableValue) list"
  child_stdin :: "string list"

text \<open>The constructor; the script path comes from the executable's location.\<close>

definition McpChannelPlugin_new :: "string \<Rightarrow> McpChannelPlugin" where
  "McpChannelPlugin_new script_path =
     \<lparr>is_initialized = False, node_process = NodeJsProcess_new,
      pending_requests = Map.empty, stream_handler = None,
      mcp_script_path = script_path, replies = [], events = [], child_stdin = []\<rparr>"

text \<open>\<^verbatim>\<open>result->Success(...)\<close>, \<^verbatim>\<open>result->Error(...)\<close>: one entry in the reply log.\<close>

definition respond :: "result_handle \<Rightarrow> reply \<Rightarrow> McpChannelPlugin \<Rightarrow> McpChannelPlugin" where
  "respond h r st = st\<lparr>replies := replies st @ [(h, r)]\<rparr>"

text \<open>
  \<^verbatim>\<open>node_process_->SendMessage(message)\<close> seen from the plugin: the answer, and the
  line with its newline on the child's input when the write went through.
\<close>

definition send_to_node :: "bool \<Rightarrow> string \<Rightarrow> McpChannelPlugin \<Rightarrow> bool \<times> McpChannelPlugin" where
  "send_to_node write_ok message st =
     (if SendMessage write_ok (node_process st) message
      then (True, st\<lparr>child_stdin := child_stdin st @ [message @ [newline]]\<rparr>)
      else (False, st))"

text \<open>The two-entry success map most handlers reply with (keys in map order).\<close>

definition success_message :: "string \<Rightarrow> EncodableValue" where
  "success_message m =
     EvMap [(EvString ''message'', EvString m), (EvString ''success'', EvBool True)]"

text \<open>The event stream handler's two callbacks.\<close>

definition OnListenInternal :: "sink_handle \<Rightarrow> McpEventStreamHandler \<Rightarrow> McpEventStreamHandler" where
  "OnListenInternal sink h = h\<lparr>event_sink := Some sink\<rparr>"

definition OnCancelInternal :: "McpEventStreamHandler \<Rightarrow> McpEventStreamHandler" where
  "OnCancelInternal h = h\<lparr>event_sink := None\<rparr>"

subsection \<open>What the operating system decides during one call\<close>

record os =
  spawn :: spawn_result
  write_file :: bool
  clock :: int

subsection \<open>MCP operations\<close>

text \<open>
  The three request lines are built by the same concatenation in the source; \<open>envelope\<close>
  is that concatenation.
\<close>

definition envelope :: "string \<Rightarrow> string \<Rightarrow> string \<Rightarrow> string" where
  \<open>envelope method params_json request_id =
     ''{"method":"'' @ method @ ''","params":'' @ params_json
       @ '',"requestId":"'' @ request_id @ ''"}''\<close>

text \<open>
  A handler returns \<open>Inr\<close> the new state, or \<open>Inl\<close> the exception that leaves it
  uncaught together with the state at the throw.
\<close>

type_synonym outcome = "(exn \<times> McpChannelPlugin) + McpChannelPlugin"

definition InitializeMcp ::
  "os \<Rightarrow> EncodableMap \<Rightarrow> result_handle \<Rightarrow> McpChannelPlugin \<Rightarrow> outcome" where
  "InitializeMcp env config result st =
     (if is_initialized st
      then Inr (respond result (Success (success_message ''Already initialized'')) st)
      else
        let st1 = st\<lparr>node_process := SetMessageCallback (node_process st)\<rparr> in
        case Start (spawn env) (node_process st1) of
          (False, p) \<Rightarrow>
            Inr (respond result
                   (Error ''INITIALIZATION_FAILED'' ''Failed to start Node.js MCP process'')
                   (st1\<lparr>node_process := p\<rparr>))
        | (True, p) \<Rightarrow>
            let st2 = st1\<lparr>node_process := p\<rparr>;
                request_id = ''init_'' @ to_string (clock env)
            in case EncodableValueToJsonString (EvMap config) of
                 Inl e \<Rightarrow> Inl (e, st2)
               | Inr config_json \<Rightarrow>
                   (case send_to_node (write_file env)
                           (envelope ''initialize'' config_json request_id) st2 of
                      (False, st3) \<Rightarrow>
                        Inr (respond result
                               (Error ''INITIALIZATION_FAILED''
                                  ''Failed to send initialization config'') st3)
                    | (True, st3) \<Rightarrow>
                        Inr (respond result
                               (Success (success_message ''MCP initialized successfully''))
                               (st3\<lparr>is_initialized := True\<rparr>))))"

definition ProcessMessage ::
  "os \<Rightarrow> EncodableMap \<Rightarrow> result_handle \<Rightarrow> McpChannelPlugin \<Rightarrow> outcome" where
  "ProcessMessage env request result st =
     (if \<not> is_initialized st
      then Inr (respond result (Error ''NOT_INITIALIZED'' ''MCP not initialized'') st)
      else case map_find request (EvString ''requestId'') of
          None \<Rightarrow>
            Inr (respond result (Error ''MISSING_REQUEST_ID'' ''Request ID is required'') st)
        | Some v \<Rightarrow>
            (case v of
               EvString request_id \<Rightarrow>
                 let st1 = st\<lparr>pending_requests := (pending_requests st)(request_id \<mapsto> result)\<rparr>
                 in (case EncodableValueToJsonString (EvMap request) of
                       Inl e \<Rightarrow> Inl (e, st1)
                     | Inr params_json \<Rightarrow>
                         (case send_to_node (write_file env)
                                 (envelope ''processMessage'' params_json request_id) st1 of
                            (True, st2) \<Rightarrow> Inr st2
                          | (False, st2) \<Rightarrow>
                              (case pending_requests st2 request_id of
                                 None \<Rightarrow> Inr st2
                               | Some it \<Rightarrow>
                                   Inr ((respond it
                                           (Error ''SEND_FAILED''
                                              ''Failed to send message to MCP process'') st2)
                                        \<lparr>pending_requests :=
                                           (pending_requests st2)(request_id := None)\<rparr>))))
             | _ \<Rightarrow> Inl (bad_variant_access, st)))"

definition StreamMessage ::
  "os \<Rightarrow> EncodableMap \<Rightarrow> result_handle \<Rightarrow> McpChannelPlugin \<Rightarrow> outcome" where
  "StreamMessage env request result st =
     (if \<not> is_initialized st
      then Inr (respond result (Error ''NOT_INITIALIZED'' ''MCP not initialized'') st)
      else
        let id_or_exn =
              (case map_find request (EvString ''requestId'') of
                 Some (EvString s) \<Rightarrow> Inr s
               | Some _ \<Rightarrow> Inl bad_variant_access
               | None \<Rightarrow> Inr (''stream_'' @ to_string (clock env)))
        in case id_or_exn of
             Inl e \<Rightarrow> Inl (e, st)
           | Inr request_id \<Rightarrow>
               (case EncodableValueToJsonString (EvMap request) of
                  Inl e \<Rightarrow> Inl (e, st)
                | Inr params_json \<Rightarrow>
                    (case send_to_node (write_file env)
                            (envelope ''streamMessage'' params_json request_id) st of
                       (False, st1) \<Rightarrow>
                         Inr (respond result
                                (Error ''SEND_FAILED''
                                   ''Failed to send stream request to MCP process'') st1)
                     | (True, st1) \<Rightarrow>
                         Inr (respond result (Success (success_message ''Stream started'')) st1))))"

definition TestConnection ::
  "EncodableMap \<Rightarrow> result_handle \<Rightarrow> McpChannelPlugin \<Rightarrow> outcome" where
  "TestConnection request result st =
     (if \<not> is_initialized st
      then Inr (respond result (Error ''NOT_INITIALIZED'' ''MCP not initialized'') st)
      else Inr (respond result
                  (Success (EvMap [(EvString ''connected'', EvBool True),
                                   (EvString ''latency'', EvInt32 150),
                                   (EvString ''metadata'', EvMap [])])) st))"

definition GetCapabilities ::
  "EncodableMap \<Rightarrow> result_handle \<Rightarrow> McpChannelPlugin \<Rightarrow> outcome" where
  "GetCapabilities request result st =
     (if \<not> is_initialized st
      then Inr (respond result (Error ''NOT_INITIALIZED'' ''MCP not initialized'') st)
      else Inr (respond result
                  (Success (EvMap [(EvString ''filesystem'',
                     EvMap [(EvString ''resources'', EvList [EvString ''files'']),
                            (EvString ''supportsCancel'', EvBool False),
                            (EvString ''supportsProgress'', EvBool True),
                            (EvString ''tools'',
                               EvList [EvString ''read_file'', EvString ''write_file'',
                                       EvString ''list_directory''])])])) st))"

definition InjectContext ::
  "EncodableMap \<Rightarrow> result_handle \<Rightarrow> McpChannelPlugin \<Rightarrow> outcome" where
  "InjectContext request result st =
     (if \<not> is_initialized st
      then Inr (respond result (Error ''NOT_INITIALIZED'' ''MCP not initialized'') st)
      else Inr (respond result (Success (success_message ''Context injected'')) st))"

text \<open>
  \<^verbatim>\<open>node_process_\<close> is set by the constructor and never reset, so the null test of the
  source always passes.
\<close>

definition DisposeMcp :: "result_handle \<Rightarrow> McpChannelPlugin \<Rightarrow> outcome" where
  "DisposeMcp result st =
     (let st1 = st\<lparr>node_process := Stop (node_process st)\<rparr>;
          st2 = st1\<lparr>is_initialized := False\<rparr>
      in Inr (respond result (Success (success_message ''MCP disposed'')) st2))"

text \<open>\<open>arguments\<close> is \<open>None\<close> for a null pointer.\<close>

definition HandleMethodCall ::
  "os \<Rightarrow> string \<Rightarrow> EncodableValue option \<Rightarrow> result_handle \<Rightarrow> McpChannelPlugin \<Rightarrow> outcome" where
  "HandleMethodCall env method arguments result st =
     (case arguments of
        Some (EvMap args) \<Rightarrow>
          (if method = ''initialize'' then InitializeMcp env args result st
           else if method = ''processMessage'' then ProcessMessage env args result st
           else if method = ''streamMessage'' then StreamMessage env args result st
           else if method = ''testConnection'' then TestConnection args result st
           else if method = ''getCapabilities'' then GetCapabilities args result st
           else if method = ''injectContext'' then InjectContext args result st
           else if method = ''dispose'' then DisposeMcp result st
           else Inr (respond result NotImplemented st))
      | _ \<Rightarrow> Inr (respond result (Error ''INVALID_ARGUMENTS'' ''Arguments must be a map'') st))"

subsection \<open>Messages from the child\<close>

definition type_response :: string where
  \<open>type_response = ''"type":"response"''\<close>

definition type_event :: string where
  \<open>type_event = ''"type":"event"''\<close>

definition request_id_key :: string where
  \<open>request_id_key = ''"requestId":"''\<close>

definition error_key :: string where
  \<open>error_key = ''"error":''\<close>

definition error_null :: string where
  \<open>error_null = ''"error":null''\<close>

text \<open>
  Nothing inside the \<^verbatim>\<open>try\<close> block throws: \<^verbatim>\<open>substr\<close> is called with a start inside
  the string, and the rest are searches, a table lookup and the two logs.
\<close>

definition HandleNodeMessage :: "string \<Rightarrow> McpChannelPlugin \<Rightarrow> McpChannelPlugin" where
  "HandleNodeMessage message st =
     (if find_str message type_response \<noteq> None then
        (case find_str message request_id_key of
           None \<Rightarrow> st
         | Some found \<Rightarrow>
             let req_id_start = found + 13 in
             (case find_from message [dquote] req_id_start of
                None \<Rightarrow> st
              | Some req_id_end \<Rightarrow>
                  let request_id = substr message req_id_start (req_id_end - req_id_start) in
                  (case pending_requests st request_id of
                     None \<Rightarrow> st
                   | Some it \<Rightarrow>
                       let st1 =
                         (if find_str message error_key \<noteq> None
                             \<and> find_str message error_null = None
                          then respond it (Error ''MCP_ERROR'' ''Error processing request'') st
                          else respond it (Success (JsonStringToEncodableValue message)) st)
                       in st1\<lparr>pending_requests := (pending_requests st1)(request_id := None)\<rparr>)))
      else if find_str message type_event \<noteq> None then
        (case stream_handler st of
           None \<Rightarrow> st
         | Some handler \<Rightarrow>
             (case event_sink handler of
                None \<Rightarrow> st
              | Some sink \<Rightarrow>
                  st\<lparr>events := events st @ [(sink, JsonStringToEncodableValue message)]\<rparr>))
      else st)"

text \<open>
  The routing fields as \<^verbatim>\<open>HandleNodeMessage\<close> reads them, for stating what it does:
  the kind of a line, and the request id of a response line.
\<close>

datatype kind = response | event | unknown

definition kind_of :: "string \<Rightarrow> kind" where
  "kind_of message =
     (if find_str message type_response \<noteq> None then response
      else if find_str message type_event \<noteq> None then event
      else unknown)"

definition request_id_of :: "string \<Rightarrow> string option" where
  "request_id_of message =
     (case find_str message request_id_key of
        None \<Rightarrow> None
      | Some found \<Rightarrow>
          (case find_from message [dquote] (found + 13) of
             None \<Rightarrow> None
           | Some req_id_end \<Rightarrow>
               Some (substr message (found + 13) (req_id_end - (found + 13)))))"

definition reports_error :: "string \<Rightarrow> bool" where
  "reports_error message =
     (find_str message error_key \<noteq> None \<and> find_str message error_null = None)"

subsection \<open>The output reader\<close>

text \<open>
  The inner loop of \<^verbatim>\<open>ReadOutputThread\<close>: while the buffer holds a newline, cut the text
  before it off and, unless it is empty, hand it to the callback if one is set. The
  callback's effect is a function on a state of any type.
\<close>

function drain_lines ::
  "(string \<Rightarrow> 's \<Rightarrow> 's) option \<Rightarrow> string \<Rightarrow> 's \<Rightarrow> string \<times> 's" where
  "drain_lines callback accumulated_data st =
     (case find_str accumulated_data [newline] of
        None \<Rightarrow> (accumulated_data, st)
      | Some pos \<Rightarrow>
          let message = substr accumulated_data 0 pos;
              rest = drop (pos + 1) accumulated_data;
              st1 = (if message \<noteq> []
                     then (case callback of Some f \<Rightarrow> f message st | None \<Rightarrow> st)
                     else st)
          in drain_lines callback rest st1)"
  by pat_completeness auto

text \<open>
  What one \<^verbatim>\<open>ReadFile\<close> call gives: failure, or the bytes read (none for
  \<open>bytes_read = 0\<close>). A failed call or a call that reads nothing is how the reader sees
  that the stream is closed.
\<close>

datatype read_result = ReadFailed | ReadOk string

text \<open>
  \<^verbatim>\<open>accumulated_data += buffer\<close> appends a NUL-terminated C string: the bytes read up to
  the first zero byte among them.
\<close>

definition c_str :: "string \<Rightarrow> string" where
  "c_str buffer = takeWhile (\<lambda>c. c \<noteq> CHR 0x00) buffer"

text \<open>
  The outer loop, over the results of the successive \<^verbatim>\<open>ReadFile\<close> calls. The process
  object \<open>p\<close> is the one the thread belongs to; \<open>handler\<close> is what the installed
  callback does. When the list is used up the thread is waiting in the next read. The
  result is the buffer and the state the callbacks have produced so far.
\<close>

fun ReadOutputThread ::
  "(string \<Rightarrow> 's \<Rightarrow> 's) \<Rightarrow> NodeJsProcess \<Rightarrow> read_result list \<Rightarrow> string \<Rightarrow> 's \<Rightarrow> string \<times> 's" where
  "ReadOutputThread handler p [] accumulated_data st = (accumulated_data, st)"
| "ReadOutputThread handler p (r # rs) accumulated_data st =
     (if is_running p \<and> child_stdout_read p then
        (case r of
           ReadOk bytes \<Rightarrow>
             if bytes \<noteq> [] then
               (case drain_lines (if message_callback p then Some handler else None)
                       (accumulated_data @ c_str bytes) st of
                  (rest, st1) \<Rightarrow> ReadOutputThread handler p rs rest st1)
             else (accumulated_data, st)
         | ReadFailed \<Rightarrow> (accumulated_data, st))
      else (accumulated_data, st))"

subsection \<open>Runs of the plugin\<close>

text \<open>
  What can happen to the plugin, one unit at a time: a method call from the host, a
  line handed over by the output reader, a subscriber attaching to or leaving the event
  stream handler (when there is one). A run ends at the first uncaught exception.
\<close>

datatype input =
    MethodCall os string "EncodableValue option" result_handle
  | NodeLine string
  | Listen sink_handle
  | Cancel

fun step :: "input \<Rightarrow> McpChannelPlugin \<Rightarrow> outcome" where
  "step (MethodCall env method arguments result) st =
     HandleMethodCall env method arguments result st"
| "step (NodeLine message) st =
     Inr (if message_callback (node_process st) then HandleNodeMessage message st else st)"
| "step (Listen sink) st =
     Inr (st\<lparr>stream_handler := map_option (OnListenInternal sink) (stream_handler st)\<rparr>)"
| "step Cancel st =
     Inr (st\<lparr>stream_handler := map_option OnCancelInternal (stream_handler st)\<rparr>)"

fun run :: "input list \<Rightarrow> McpChannelPlugin \<Rightarrow> outcome" where
  "run [] st = Inr st"
| "run (i # inputs) st =
     (case step i st of
        Inl e \<Rightarrow> Inl e
      | Inr st1 \<Rightarrow> run inputs st1)"

text \<open>The state an outcome ends in, and the handles a state or an input mentions.\<close>

fun state_of :: "outcome \<Rightarrow> McpChannelPlugin" where
  "state_of (Inl (e, st)) = st"
| "state_of (Inr st) = st"

definition replied :: "McpChannelPlugin \<Rightarrow> result_handle set" where
  "replied st = fst ` set (replies st)"

fun call_handles :: "input \<Rightarrow> result_handle set" where
  "call_handles (MethodCall env method arguments result) = {result}"
| "call_handles _ = {}"

text \<open>A run continued after a call, unless the call ended in an exception.\<close>

definition then_run :: "outcome \<Rightarrow> input list \<Rightarrow> outcome" where
  "then_run out inputs = (case out of Inl x \<Rightarrow> Inl x | Inr st \<Rightarrow> run inputs st)"

text \<open>The callers that have been answered or are still in the pending table.\<close>

definition live_handles :: "McpChannelPlugin \<Rightarrow> result_handle set" where
  "live_handles st = replied st \<union> ran (pending_requests st)"

text \<open>No event stream handler exists and no event has been delivered.\<close>

definition no_subscriber :: "McpChannelPlugin \<Rightarrow> bool" where
  "no_subscriber st \<longleftrightarrow> stream_handler st = None \<and> events st = []"

subsection \<open>Reference: a response as a JSON value\<close>

text \<open>
  The specification speaks of the \<open>error\<close> field of a response. To say which field that
  is without relying on the plugin's own reading of the text, a response is taken as a
  JSON value and written out in the compact form the child sends: no white space,
  quotes and backslashes escaped inside strings.
\<close>

datatype json =
    JNull
  | JBool bool
  | JNumber int
  | JString string
  | JArray "json list"
  | JObject "(string \<times> json) list"

definition backslash :: char where
  "backslash = CHR 0x5C"

definition json_escape :: "string \<Rightarrow> string" where
  "json_escape s = concat (map (\<lambda>c. if c = dquote \<or> c = backslash then [backslash, c] else [c]) s)"

fun join_comma :: "string list \<Rightarrow> string" where
  "join_comma [] = []"
| "join_comma [x] = x"
| "join_comma (x # y # ys) = x @ '','' @ join_comma (y # ys)"

fun json_render :: "json \<Rightarrow> string" where
  "json_render JNull = ''null''"
| "json_render (JBool b) = (if b then ''true'' else ''false'')"
| "json_render (JNumber i) = to_string i"
| "json_render (JString s) = [dquote] @ json_escape s @ [dquote]"
| "json_render (JArray xs) = ''['' @ join_comma (map json_render xs) @ '']''"
| "json_render (JObject members) =
     ''{'' @ join_comma (map (\<lambda>(k, v). [dquote] @ json_escape k @ [dquote] @ '':'' @ json_render v)
                          members) @ ''}''"

text \<open>The error field of a response is present and not null.\<close>

definition error_present_non_null :: "(string \<times> json) list \<Rightarrow> bool" where
  "error_present_non_null members =
     (case map_of members ''error'' of None \<Rightarrow> False | Some v \<Rightarrow> v \<noteq> JNull)"

subsection \<open>Example states and inputs\<close>

definition running_process :: NodeJsProcess where
  "running_process =
     \<lparr>is_running = True, child_stdin_write = True, child_stdout_read = True,
      child_stderr_read = True, message_callback = True\<rparr>"

definition fresh_plugin :: McpChannelPlugin where
  "fresh_plugin = McpChannelPlugin_new ''mcp_bridge.js''"

definition ready_plugin :: McpChannelPlugin where
  "ready_plugin =
     \<lparr>is_initialized = True, node_process = running_process,
      pending_requests = Map.empty, stream_handler = None,
      mcp_script_path = ''mcp_bridge.js'', replies = [], events = [], child_stdin = []\<rparr>"

text \<open>A ready plugin with one caller, number 1, waiting under the request id "1".\<close>

definition waiting_plugin :: McpChannelPlugin where
  "waiting_plugin = ready_plugin\<lparr>pending_requests := [''1'' \<mapsto> 1]\<rparr>"

definition request_1 :: EncodableMap where
  "request_1 = [(EvString ''foo'', EvString ''bar''), (EvString ''requestId'', EvString ''1'')]"

definition request_without_id :: EncodableMap where
  "request_without_id = [(EvString ''foo'', EvString ''bar'')]"

definition os_ok :: os where
  "os_ok = \<lparr>spawn = Spawned, write_file = True, clock = 42\<rparr>"

definition os_broken_pipe :: os where
  "os_broken_pipe = \<lparr>spawn = Spawned, write_file = False, clock = 42\<rparr>"

definition os_no_node :: os where
  "os_no_node = \<lparr>spawn = CreateProcessFailed, write_file = True, clock = 42\<rparr>"

text \<open>A ready plugin with an event stream handler, with and without a subscriber.\<close>

definition listening_plugin :: McpChannelPlugin where
  "listening_plugin = ready_plugin\<lparr>stream_handler := Some \<lparr>event_sink = Some 9\<rparr>\<rparr>"

definition deaf_plugin :: McpChannelPlugin where
  "deaf_plugin = ready_plugin\<lparr>stream_handler := Some \<lparr>event_sink = None\<rparr>\<rparr>"

text \<open>The three lines of the specification's scenarios.\<close>

definition success_line :: string where
  \<open>success_line = ''{"type":"response","requestId":"1","error":null,"result":42}''\<close>

definition error_line :: string where
  \<open>error_line = ''{"type":"response","requestId":"1","error":{"msg":"bad"}}''\<close>

definition event_line :: string where
  \<open>event_line = ''{"type":"event","name":"progress"}''\<close>

text \<open>The event line arriving in two reads, cut in the middle of a word.\<close>

definition event_chunk_1 :: string where
  \<open>event_chunk_1 = ''{"type":"ev''\<close>

definition event_chunk_2 :: string where
  \<open>event_chunk_2 = ''ent","name":"progress"}''\<close>

text \<open>Two lines with an empty line between them, in one read.\<close>

definition blank_line_chunk :: string where
  "blank_line_chunk = ''a'' @ [newline, newline] @ ''b'' @ [newline]"

text \<open>A callback that only records the lines it is given.\<close>

definition record_line :: "string \<Rightarrow> string list \<Rightarrow> string list" where
  "record_line message log = log @ [message]"

text \<open>
  A response to request "1" whose error field is an object, with a null field named
  \<open>error\<close> nested inside it; as a JSON value and as the line the child writes.
\<close>

definition nested_error_members :: "(string \<times> json) list" where
  "nested_error_members =
     [(''type'', JString ''response''), (''requestId'', JString ''1''),
      (''error'', JObject [(''msg'', JString ''bad''),
                           (''cause'', JObject [(''error'', JNull)])])]"

definition nested_error_line :: string where
  \<open>nested_error_line =
     ''{"type":"response","requestId":"1","error":{"msg":"bad","cause":{"error":null}}}''\<close>

definition dispose_call :: input where
  "dispose_call = MethodCall os_ok ''dispose'' (Some (EvMap [])) 3"

text \<open>
  States reached from the constructor: the plugin is initialized, then a caller sends
  request "1" (caller 1), or request "9" (caller 2), or both do.
\<close>

definition request_9 :: EncodableMap where
  "request_9 = [(EvString ''requestId'', EvString ''9'')]"

definition initialize_call :: input where
  "initialize_call = MethodCall os_ok ''initialize'' (Some (EvMap [])) 0"

definition waiting_for_1 :: McpChannelPlugin where
  "waiting_for_1 =
     state_of (run [initialize_call,
                    MethodCall os_ok ''processMessage'' (Some (EvMap request_1)) 1]
                 fresh_plugin)"

definition waiting_for_9 :: McpChannelPlugin where
  "waiting_for_9 =
     state_of (run [initialize_call,
                    MethodCall os_ok ''processMessage'' (Some (EvMap request_9)) 2]
                 fresh_plugin)"

definition waiting_for_1_and_9 :: McpChannelPlugin where
  "waiting_for_1_and_9 =
     state_of (run [initialize_call,
                    MethodCall os_ok ''processMessage'' (Some (EvMap request_1)) 1,
                    MethodCall os_ok ''processMessage'' (Some (EvMap request_9)) 2]
                 fresh_plugin)"

text \<open>
  A response to request "1" whose result holds a field named \<open>requestId\<close> with the
  value "9", written before the response's own request id.
\<close>

definition nested_id_members :: "(string \<times> json) list" where
  "nested_id_members =
     [(''type'', JString ''response''),
      (''result'', JObject [(''requestId'', JString ''9'')]),
      (''requestId'', JString ''1''), (''error'', JNull)]"

definition nested_id_line :: string where
  \<open>nested_id_line =
     ''{"type":"response","result":{"requestId":"9"},"requestId":"1","error":null}''\<close>

text \<open>An event whose payload holds a field \<open>type\<close> with the value "response".\<close>

definition nested_type_members :: "(string \<times> json) list" where
  "nested_type_members =
     [(''type'', JString ''event''),
      (''payload'', JObject [(''type'', JString ''response''),
                             (''requestId'', JString ''1'')])]"

definition nested_type_line :: string where
  \<open>nested_type_line =
     ''{"type":"event","payload":{"type":"response","requestId":"1"}}''\<close>

lemmas fixtures =
  running_process_def fresh_plugin_def ready_plugin_def waiting_plugin_def request_1_def
  request_without_id_def os_ok_def os_broken_pipe_def os_no_node_def
  listening_plugin_def deaf_plugin_def
  McpChannelPlugin_new_def NodeJsProcess_new_def

section \<open>Properties\<close>

subsection \<open>Searching for one character\<close>

lemma find_sub_char_None: "find_sub [c] s = None \<longleftrightarrow> c \<notin> set s"
  by (induction s) auto

lemma find_sub_char_Some:
  "find_sub [c] s = Some i \<Longrightarrow> i < length s \<and> s ! i = c \<and> c \<notin> set (take i s)"
proof (induction s arbitrary: i)
  case Nil
  then show ?case by simp
next
  case (Cons a s)
  show ?case
  proof (cases "a = c")
    case True
    with Cons.prems show ?thesis by simp
  next
    case False
    with Cons.prems obtain j where j: "find_sub [c] s = Some j" "i = Suc j"
      by auto
    from Cons.IH [OF j(1)] j(2) False show ?thesis by simp
  qed
qed

lemma find_str_char_less: "find_str s [c] = Some pos \<Longrightarrow> pos < length s"
  by (simp add: find_str_def find_from_def find_sub_char_Some)

text \<open>Each turn of the inner loop shortens the buffer, so the loop ends.\<close>

termination drain_lines
  by (relation "measure (\<lambda>(callback, accumulated_data, st). length accumulated_data)")
     (auto dest: find_str_char_less)

declare drain_lines.simps [simp del]


subsection \<open>What HandleNodeMessage does, by kind of line\<close>

lemma kind_response_iff:
  "kind_of message = response \<longleftrightarrow> find_str message type_response \<noteq> None"
  by (simp add: kind_of_def)

lemma kind_event_iff:
  "kind_of message = event \<longleftrightarrow>
     find_str message type_response = None \<and> find_str message type_event \<noteq> None"
  by (simp add: kind_of_def)

lemma kind_unknown_iff:
  "kind_of message = unknown \<longleftrightarrow>
     find_str message type_response = None \<and> find_str message type_event = None"
  by (simp add: kind_of_def)

lemma HandleNodeMessage_response:
  assumes "kind_of message = response"
  shows "HandleNodeMessage message st =
     (case request_id_of message of
        None \<Rightarrow> st
      | Some r \<Rightarrow>
          (case pending_requests st r of
             None \<Rightarrow> st
           | Some h \<Rightarrow>
               (respond h (if reports_error message
                           then Error ''MCP_ERROR'' ''Error processing request''
                           else Success (JsonStringToEncodableValue message)) st)
               \<lparr>pending_requests := (pending_requests st)(r := None)\<rparr>))"
proof -
  from assms have "find_str message type_response \<noteq> None"
    by (simp add: kind_response_iff)
  then show ?thesis
    by (simp add: HandleNodeMessage_def request_id_of_def reports_error_def respond_def
          Let_def split: option.splits)
qed

lemma HandleNodeMessage_event:
  assumes "kind_of message = event"
  shows "HandleNodeMessage message st =
     (case stream_handler st of
        None \<Rightarrow> st
      | Some handler \<Rightarrow>
          (case event_sink handler of
             None \<Rightarrow> st
           | Some sink \<Rightarrow>
               st\<lparr>events := events st @ [(sink, JsonStringToEncodableValue message)]\<rparr>))"
proof -
  from assms
  have "find_str message type_response = None" "find_str message type_event \<noteq> None"
    by (simp_all add: kind_event_iff)
  then show ?thesis
    by (simp add: HandleNodeMessage_def)
qed

lemma HandleNodeMessage_unknown:
  assumes "kind_of message = unknown"
  shows "HandleNodeMessage message st = st"
proof -
  from assms
  have "find_str message type_response = None" "find_str message type_event = None"
    by (simp_all add: kind_unknown_iff)
  then show ?thesis
    by (simp add: HandleNodeMessage_def)
qed

text \<open>The routing fields of the scenario lines.\<close>

lemma success_line_fields:
  "kind_of success_line = response" "request_id_of success_line = Some ''1''"
  "\<not> reports_error success_line"
  by code_simp+

lemma error_line_fields:
  "kind_of error_line = response" "request_id_of error_line = Some ''1''"
  "reports_error error_line"
  by code_simp+

lemma event_line_fields: "kind_of event_line = event"
  by code_simp

subsection \<open>The reader at the end of the stream\<close>

lemma ReadOutputThread_closed:
  "c = ReadFailed \<or> c = ReadOk [] \<Longrightarrow>
   ReadOutputThread handler p (c # later) accumulated_data st = (accumulated_data, st)"
  by auto

lemma ReadOutputThread_append_closed:
  "c = ReadFailed \<or> c = ReadOk [] \<Longrightarrow>
   ReadOutputThread handler p (rs @ c # later) accumulated_data st
     = ReadOutputThread handler p rs accumulated_data st"
proof (induction rs arbitrary: accumulated_data st)
  case Nil
  then show ?case by auto
next
  case (Cons r rs)
  then show ?case
    by (cases r) (auto split: prod.splits)
qed

subsection \<open>processMessage: the two rejections\<close>

text \<open>
  Claim C4. \<open>ProcessMessage\<close> on a plugin that is not initialized answers the caller with
  \<open>NOT_INITIALIZED\<close>; on an initialized plugin and a request map without the key
  \<open>requestId\<close> it answers with \<open>MISSING_REQUEST_ID\<close>. In both cases the state after the
  call is the state before it with that one answer added to the reply log: the pending
  table, the child's input and every other field are as they were.
\<close>

theorem ProcessMessage_rejects:
  "(\<not> is_initialized st \<longrightarrow>
      ProcessMessage env request result st =
        Inr (st\<lparr>replies := replies st
                   @ [(result, Error ''NOT_INITIALIZED'' ''MCP not initialized'')]\<rparr>))
   \<and> (is_initialized st \<and> map_find request (EvString ''requestId'') = None \<longrightarrow>
      ProcessMessage env request result st =
        Inr (st\<lparr>replies := replies st
                   @ [(result, Error ''MISSING_REQUEST_ID'' ''Request ID is required'')]\<rparr>))"
  by (simp add: ProcessMessage_def respond_def)

text \<open>
  Witness for C4: a call on the freshly constructed plugin, and a call without request
  id on a ready one.
\<close>

theorem ProcessMessage_rejects_witness:
  "\<not> is_initialized fresh_plugin
   \<and> ProcessMessage os_ok request_1 5 fresh_plugin =
       Inr (fresh_plugin\<lparr>replies := [(5, Error ''NOT_INITIALIZED'' ''MCP not initialized'')]\<rparr>)
   \<and> is_initialized waiting_plugin
   \<and> map_find request_without_id (EvString ''requestId'') = None
   \<and> ProcessMessage os_ok request_without_id 5 waiting_plugin =
       Inr (waiting_plugin\<lparr>replies :=
              [(5, Error ''MISSING_REQUEST_ID'' ''Request ID is required'')]\<rparr>)"
  using ProcessMessage_rejects [of fresh_plugin os_ok request_1 5]
        ProcessMessage_rejects [of waiting_plugin os_ok request_without_id 5]
  by (simp add: fixtures map_find_def)

subsection \<open>processMessage: a failed send\<close>

text \<open>
  Claim C5. On an initialized plugin, for a request whose \<open>requestId\<close> is the string
  \<open>r\<close> and whose map encodes, when \<open>SendMessage\<close> answers false the call ends with the
  caller answered \<open>SEND_FAILED\<close> and no entry under \<open>r\<close> in the pending table; nothing
  else changes.
\<close>

theorem ProcessMessage_send_failed:
  assumes "is_initialized st"
    and "map_find request (EvString ''requestId'') = Some (EvString r)"
    and "EncodableValueToJsonString (EvMap request) = Inr params_json"
    and "\<not> SendMessage (write_file env) (node_process st)
             (envelope ''processMessage'' params_json r)"
  shows "ProcessMessage env request result st =
           Inr (st\<lparr>pending_requests := (pending_requests st)(r := None),
                    replies := replies st
                      @ [(result, Error ''SEND_FAILED''
                                    ''Failed to send message to MCP process'')]\<rparr>)"
  using assms by (simp add: ProcessMessage_def send_to_node_def respond_def SendMessage_def)

text \<open>Witness for C5: the write to the child's input fails on a ready plugin.\<close>

theorem ProcessMessage_send_failed_witness:
  "ProcessMessage os_broken_pipe request_1 5 ready_plugin =
     Inr (ready_plugin\<lparr>replies :=
            [(5, Error ''SEND_FAILED'' ''Failed to send message to MCP process'')]\<rparr>)"
proof -
  have init: "is_initialized ready_plugin"
    by (simp add: fixtures)
  have key: "map_find request_1 (EvString ''requestId'') = Some (EvString ''1'')"
    by (simp add: fixtures map_find_def)
  obtain params_json where enc: "EncodableValueToJsonString (EvMap request_1) = Inr params_json"
    by (simp add: fixtures)
  have fails: "\<not> SendMessage (write_file os_broken_pipe) (node_process ready_plugin)
                   (envelope ''processMessage'' params_json ''1'')"
    by (simp add: fixtures SendMessage_def)
  show ?thesis
    using ProcessMessage_send_failed [OF init key enc fails, of 5]
    by (simp add: fixtures)
qed

subsection \<open>dispose\<close>

text \<open>
  Claim C1, as amended. \<open>DisposeMcp\<close> stops the child process, clears the initialized
  flag and answers its own caller with success. It does not touch the pending table
  and answers no other caller: every request that was pending before the call is still
  pending after it.
\<close>

theorem DisposeMcp_keeps_pending:
  "\<exists>st'. DisposeMcp result st = Inr st'
      \<and> pending_requests st' = pending_requests st
      \<and> replies st' = replies st @ [(result, Success (success_message ''MCP disposed''))]
      \<and> \<not> is_initialized st' \<and> \<not> is_running (node_process st')"
  by (simp add: DisposeMcp_def respond_def Stop_def)

text \<open>
  Claim C1 as stated fails: with caller 1 pending under "1", after \<open>DisposeMcp\<close> the
  entry is still in the table and the only reply is the one to the dispose call.
\<close>

theorem DisposeMcp_leaves_request_pending:
  "pending_requests waiting_plugin ''1'' = Some 1
   \<and> pending_requests (state_of (DisposeMcp 2 waiting_plugin)) ''1'' = Some 1
   \<and> replies (state_of (DisposeMcp 2 waiting_plugin))
       = [(2, Success (success_message ''MCP disposed''))]"
  by (simp add: DisposeMcp_def respond_def Stop_def fixtures)

text \<open>Witness for C1 as amended: dispose with one caller waiting.\<close>

theorem DisposeMcp_keeps_pending_witness:
  "\<exists>st'. DisposeMcp 2 waiting_plugin = Inr st'
      \<and> pending_requests st' = [''1'' \<mapsto> 1]
      \<and> replies st' = [(2, Success (success_message ''MCP disposed''))]
      \<and> \<not> is_initialized st' \<and> \<not> is_running (node_process st')"
  using DisposeMcp_keeps_pending [of 2 waiting_plugin]
  by (simp add: fixtures)

subsection \<open>Responses: at most one completion per request id\<close>

text \<open>
  Claim C3, as amended. The kind and the request id of a line are the ones
  \<open>HandleNodeMessage\<close> reads: the kind is response when the line holds the text
  \<^verbatim>\<open>"type":"response"\<close>, and the request id is the text between the first
  \<^verbatim>\<open>"requestId":"\<close> in the line and the next double quote. A response line whose
  request id cannot be read or is not in the pending table leaves the whole state as it
  is: no reply, no event, no change of the table. And after one response line has been
  handled, a second response line that reads as the same request id changes nothing any
  more, so a request id is completed at most once.
\<close>

theorem response_at_most_once:
  "(kind_of m = response
      \<and> (request_id_of m = None
           \<or> (\<exists>r. request_id_of m = Some r \<and> pending_requests st r = None))
      \<longrightarrow> HandleNodeMessage m st = st)
   \<and> (kind_of m = response \<and> kind_of m' = response \<and> request_id_of m' = request_id_of m
      \<longrightarrow> HandleNodeMessage m' (HandleNodeMessage m st) = HandleNodeMessage m st)"
proof (intro conjI impI)
  assume "kind_of m = response
      \<and> (request_id_of m = None
           \<or> (\<exists>r. request_id_of m = Some r \<and> pending_requests st r = None))"
  then show "HandleNodeMessage m st = st"
    by (auto simp add: HandleNodeMessage_response)
next
  assume a: "kind_of m = response \<and> kind_of m' = response
               \<and> request_id_of m' = request_id_of m"
  show "HandleNodeMessage m' (HandleNodeMessage m st) = HandleNodeMessage m st"
  proof (cases "request_id_of m")
    case None
    with a show ?thesis
      by (simp add: HandleNodeMessage_response)
  next
    case (Some r)
    with a have gone: "pending_requests (HandleNodeMessage m st) r = None"
      by (simp add: HandleNodeMessage_response respond_def split: option.splits)
    from a Some have "request_id_of m' = Some r" "kind_of m' = response"
      by simp_all
    with gone show ?thesis
      by (simp add: HandleNodeMessage_response)
  qed
qed

text \<open>
  Witness for C3 as amended: the success line completes caller 1; the error line for the same id
  that follows is dropped; on a plugin with nothing pending the success line is dropped.
\<close>

theorem response_at_most_once_witness:
  "replies (HandleNodeMessage success_line waiting_plugin)
     = [(1, Success (JsonStringToEncodableValue success_line))]
   \<and> HandleNodeMessage error_line (HandleNodeMessage success_line waiting_plugin)
       = HandleNodeMessage success_line waiting_plugin
   \<and> HandleNodeMessage success_line ready_plugin = ready_plugin"
  using response_at_most_once [of success_line waiting_plugin error_line]
        response_at_most_once [of success_line ready_plugin error_line]
  by (simp add: HandleNodeMessage_response success_line_fields error_line_fields
        respond_def fixtures)

text \<open>
  Claim C3 as stated fails on nested content. The line below is the compact text of a
  response whose request id is "1"; its result holds a field \<open>requestId\<close> with the value
  "9", written first. With only caller 2 pending, under "9", the line is not dropped:
  it completes caller 2. And handled after the success line for "1", with callers
  pending under "1" and "9", it is not a no-op: it completes caller 2 again.
\<close>

theorem nested_request_id_completes_other_caller:
  "json_render (JObject nested_id_members) = nested_id_line
   \<and> map_of nested_id_members ''type'' = Some (JString ''response'')
   \<and> map_of nested_id_members ''requestId'' = Some (JString ''1'')
   \<and> pending_requests waiting_for_9 ''1'' = None
   \<and> pending_requests waiting_for_9 ''9'' = Some 2
   \<and> replies (HandleNodeMessage nested_id_line waiting_for_9)
       = replies waiting_for_9 @ [(2, Success (JsonStringToEncodableValue nested_id_line))]
   \<and> pending_requests (HandleNodeMessage nested_id_line waiting_for_9) ''9'' = None
   \<and> replies (HandleNodeMessage nested_id_line
                (HandleNodeMessage success_line waiting_for_1_and_9))
       = replies (HandleNodeMessage success_line waiting_for_1_and_9)
           @ [(2, Success (JsonStringToEncodableValue nested_id_line))]"
  by code_simp

subsection \<open>Events\<close>

text \<open>
  No operation of the plugin creates the event stream handler: from the constructor on
  there is none, and no event is delivered.
\<close>

lemma quiet_respond: "no_subscriber (respond h r st) = no_subscriber st"
  by (simp add: no_subscriber_def respond_def)

lemma quiet_updates [simp]:
  "no_subscriber (st\<lparr>node_process := p\<rparr>) = no_subscriber st"
  "no_subscriber (st\<lparr>is_initialized := b\<rparr>) = no_subscriber st"
  "no_subscriber (st\<lparr>pending_requests := t\<rparr>) = no_subscriber st"
  "no_subscriber (st\<lparr>child_stdin := ws\<rparr>) = no_subscriber st"
  by (simp_all add: no_subscriber_def)

lemma quiet_send:
  "send_to_node w msg st = (b, st') \<Longrightarrow> no_subscriber st' = no_subscriber st"
  by (auto simp add: send_to_node_def split: if_splits)

lemma quiet_InitializeMcp:
  "no_subscriber st \<Longrightarrow> no_subscriber (state_of (InitializeMcp env config result st))"
  by (auto simp add: InitializeMcp_def quiet_respond Let_def dest!: quiet_send
        simp del: Start.simps EncodableValueToJsonString.simps
        split: prod.splits sum.splits bool.splits)

lemma quiet_ProcessMessage:
  "no_subscriber st \<Longrightarrow> no_subscriber (state_of (ProcessMessage env request result st))"
  by (auto simp add: ProcessMessage_def no_subscriber_def respond_def send_to_node_def Let_def
        simp del: EncodableValueToJsonString.simps
        split: option.splits EncodableValue.splits sum.splits if_splits)

lemma quiet_StreamMessage:
  "no_subscriber st \<Longrightarrow> no_subscriber (state_of (StreamMessage env request result st))"
  by (auto simp add: StreamMessage_def quiet_respond Let_def dest!: quiet_send
        simp del: EncodableValueToJsonString.simps
        split: option.splits EncodableValue.splits sum.splits prod.splits bool.splits)

lemma quiet_simple_calls:
  "no_subscriber st \<Longrightarrow> no_subscriber (state_of (TestConnection request result st))"
  "no_subscriber st \<Longrightarrow> no_subscriber (state_of (GetCapabilities request result st))"
  "no_subscriber st \<Longrightarrow> no_subscriber (state_of (InjectContext request result st))"
  by (auto simp add: TestConnection_def GetCapabilities_def InjectContext_def quiet_respond)

lemma quiet_DisposeMcp:
  "no_subscriber st \<Longrightarrow> no_subscriber (state_of (DisposeMcp result st))"
  by (auto simp add: DisposeMcp_def quiet_respond)

lemma quiet_HandleMethodCall:
  assumes "no_subscriber st"
  shows "no_subscriber (state_of (HandleMethodCall env name arguments result st))"
proof (cases arguments)
  case None
  with assms show ?thesis
    by (simp add: HandleMethodCall_def quiet_respond)
next
  case (Some v)
  show ?thesis
  proof (cases v)
    case (EvMap args)
    with Some assms show ?thesis
      using quiet_InitializeMcp [of st env args result] quiet_ProcessMessage [of st env args result]
        quiet_StreamMessage [of st env args result] quiet_simple_calls [of st args result]
        quiet_DisposeMcp [of st result]
      by (simp add: HandleMethodCall_def quiet_respond)
  qed (simp_all add: Some assms HandleMethodCall_def quiet_respond)
qed

lemma quiet_HandleNodeMessage:
  assumes "no_subscriber st"
  shows "no_subscriber (HandleNodeMessage m st)"
proof (cases "kind_of m")
  case response
  with assms show ?thesis
    by (simp add: HandleNodeMessage_response no_subscriber_def respond_def
          split: option.splits)
next
  case event
  with assms show ?thesis
    by (simp add: HandleNodeMessage_event no_subscriber_def)
next
  case unknown
  with assms show ?thesis
    by (simp add: HandleNodeMessage_unknown)
qed

lemma quiet_step: "no_subscriber st \<Longrightarrow> no_subscriber (state_of (step i st))"
proof (cases i)
  case (MethodCall env name args result)
  assume "no_subscriber st"
  with MethodCall quiet_HandleMethodCall [of st env name args result] show ?thesis
    by simp
next
  case (NodeLine message)
  assume "no_subscriber st"
  with NodeLine quiet_HandleNodeMessage [of st message] show ?thesis
    by simp
next
  case (Listen sink)
  assume "no_subscriber st"
  with Listen show ?thesis
    by (simp add: no_subscriber_def)
next
  case Cancel
  assume "no_subscriber st"
  with Cancel show ?thesis
    by (simp add: no_subscriber_def)
qed

lemma quiet_run: "no_subscriber st \<Longrightarrow> no_subscriber (state_of (run inputs st))"
proof (induction inputs arbitrary: st)
  case Nil
  then show ?case by simp
next
  case (Cons i inputs)
  show ?case
  proof (cases "step i st")
    case (Inl x)
    with quiet_step [OF Cons.prems, of i] show ?thesis
      by simp
  next
    case (Inr st1)
    with quiet_step [OF Cons.prems, of i] have "no_subscriber st1"
      by simp
    with Cons.IH [of st1] Inr show ?thesis
      by simp
  qed
qed

lemma quiet_new: "no_subscriber (McpChannelPlugin_new script_path)"
  by (simp add: no_subscriber_def McpChannelPlugin_new_def)

text \<open>
  Claim C7, as amended. The kind of a line is the one \<open>HandleNodeMessage\<close> reads: event
  when the line holds the text \<^verbatim>\<open>"type":"event"\<close> and nowhere the text
  \<^verbatim>\<open>"type":"response"\<close>. For such a line: when the stream handler holds a sink, the line
  is handed to that sink once, within the call, and nothing else changes; when there is
  no stream handler or it holds no sink, the state is unchanged: no delivery, no reply,
  no error. In every state reached from the constructor there is no stream handler, so
  there the line is dropped.
\<close>

theorem event_forwarding:
  assumes "kind_of m = event"
  shows "(stream_handler st = Some handler \<and> event_sink handler = Some sink \<longrightarrow>
            HandleNodeMessage m st
              = st\<lparr>events := events st @ [(sink, JsonStringToEncodableValue m)]\<rparr>)
       \<and> (stream_handler st = None
            \<or> (stream_handler st = Some handler \<and> event_sink handler = None)
            \<longrightarrow> HandleNodeMessage m st = st)
       \<and> stream_handler (state_of (run inputs (McpChannelPlugin_new script_path))) = None
       \<and> HandleNodeMessage m (state_of (run inputs (McpChannelPlugin_new script_path)))
           = state_of (run inputs (McpChannelPlugin_new script_path))"
proof -
  have "no_subscriber (state_of (run inputs (McpChannelPlugin_new script_path)))"
    by (rule quiet_run [OF quiet_new])
  then have "stream_handler (state_of (run inputs (McpChannelPlugin_new script_path))) = None"
    by (simp add: no_subscriber_def)
  with assms show ?thesis
    by (auto simp add: HandleNodeMessage_event)
qed

text \<open>
  Witness for C7 as amended: the scenario's event line with a subscriber, with a handler
  without subscriber, without a handler, and in a state reached from the constructor.
\<close>

theorem event_forwarding_witness:
  "events (HandleNodeMessage event_line listening_plugin)
     = [(9, JsonStringToEncodableValue event_line)]
   \<and> HandleNodeMessage event_line deaf_plugin = deaf_plugin
   \<and> HandleNodeMessage event_line ready_plugin = ready_plugin
   \<and> stream_handler waiting_for_1 = None
   \<and> HandleNodeMessage event_line waiting_for_1 = waiting_for_1"
proof -
  let ?inputs = "[initialize_call,
                  MethodCall os_ok ''processMessage'' (Some (EvMap request_1)) 1]"
  have w: "waiting_for_1 = state_of (run ?inputs (McpChannelPlugin_new ''mcp_bridge.js''))"
    by (simp only: waiting_for_1_def fresh_plugin_def)
  have l: "stream_handler listening_plugin = Some \<lparr>event_sink = Some 9\<rparr>"
    "events listening_plugin = []"
    "stream_handler deaf_plugin = Some \<lparr>event_sink = None\<rparr>"
    "stream_handler ready_plugin = None"
    by (simp_all add: fixtures)
  from event_forwarding [OF event_line_fields,
         of listening_plugin "\<lparr>event_sink = Some 9\<rparr>" 9 ?inputs "''mcp_bridge.js''"]
       event_forwarding [OF event_line_fields,
         of deaf_plugin "\<lparr>event_sink = None\<rparr>" 9 ?inputs "''mcp_bridge.js''"]
       event_forwarding [OF event_line_fields,
         of ready_plugin "\<lparr>event_sink = None\<rparr>" 9 ?inputs "''mcp_bridge.js''"]
  show ?thesis
    by (simp add: l w del: run.simps)
qed

text \<open>
  Claim C7 as stated fails on nested content. The line below is the compact text of an
  event whose payload holds a field \<open>type\<close> with the value "response". In a state reached
  from the constructor, with no subscriber and caller 1 pending under "1", the line is
  not a silent no-op: it is routed as a response and completes caller 1.
\<close>

theorem event_with_nested_response_completes_caller:
  "json_render (JObject nested_type_members) = nested_type_line
   \<and> map_of nested_type_members ''type'' = Some (JString ''event'')
   \<and> stream_handler waiting_for_1 = None
   \<and> pending_requests waiting_for_1 ''1'' = Some 1
   \<and> replies (HandleNodeMessage nested_type_line waiting_for_1)
       = replies waiting_for_1 @ [(1, Success (JsonStringToEncodableValue nested_type_line))]
   \<and> pending_requests (HandleNodeMessage nested_type_line waiting_for_1) ''1'' = None
   \<and> events (HandleNodeMessage nested_type_line waiting_for_1) = []"
  by code_simp

subsection \<open>The end of the child's output\<close>

text \<open>
  Claim C2, as amended. When a read fails or reads nothing, the reader's loop ends and
  that is all: the buffer and the plugin state are what the reads before the closure
  made them. No pending request is answered and none is removed from the table on
  closure.
\<close>

theorem stream_closure_changes_nothing:
  assumes "c = ReadFailed \<or> c = ReadOk []"
  shows "ReadOutputThread HandleNodeMessage p (c # later) accumulated_data st
           = (accumulated_data, st)
       \<and> ReadOutputThread HandleNodeMessage p (rs @ c # later) accumulated_data st
           = ReadOutputThread HandleNodeMessage p rs accumulated_data st"
  by (intro conjI ReadOutputThread_closed [OF assms] ReadOutputThread_append_closed [OF assms])

text \<open>Witness for C2 as amended: closure seen by a failed read and by an empty read.\<close>

theorem stream_closure_changes_nothing_witness:
  "ReadOutputThread HandleNodeMessage running_process [ReadFailed] [] waiting_plugin
     = ([], waiting_plugin)
   \<and> ReadOutputThread HandleNodeMessage running_process [ReadOk [], ReadOk ''x''] []
       waiting_plugin = ([], waiting_plugin)"
  using stream_closure_changes_nothing
          [of ReadFailed running_process "[]" "[]" waiting_plugin "[]"]
        stream_closure_changes_nothing
          [of "ReadOk []" running_process "[ReadOk ''x'']" "[]" waiting_plugin "[]"]
  by simp

text \<open>
  Claim C2 as stated fails: with caller 1 pending under "1", after the reader has seen
  the stream close the entry is still in the table and nobody has been answered.
\<close>

theorem stream_closure_leaves_request_pending:
  "pending_requests
     (snd (ReadOutputThread HandleNodeMessage running_process [ReadFailed] [] waiting_plugin))
     ''1'' = Some 1
   \<and> replies
       (snd (ReadOutputThread HandleNodeMessage running_process [ReadFailed] [] waiting_plugin))
     = []"
  by (simp add: fixtures)

subsection \<open>initialize\<close>

text \<open>
  Claim C9. \<open>InitializeMcp\<close> on an initialized plugin answers success and changes
  nothing else. Otherwise: if \<open>Start\<close> answers false, the caller is answered
  \<open>INITIALIZATION_FAILED\<close> and the flag stays clear; if \<open>Start\<close> answers true and
  \<open>SendMessage\<close> answers false, the same; if both answer true, the call itself sets the
  initialized flag and answers success, with the initialize line written to the child
  and no line from the child read in between. (A send is attempted only when the
  configuration map encodes.)
\<close>

theorem InitializeMcp_cases:
  assumes "Start (spawn env) (SetMessageCallback (node_process st)) = (started, p)"
  shows "(is_initialized st \<longrightarrow>
            InitializeMcp env config result st =
              Inr (st\<lparr>replies := replies st
                         @ [(result, Success (success_message ''Already initialized''))]\<rparr>))
       \<and> (\<not> is_initialized st \<and> \<not> started \<longrightarrow>
            (\<exists>st'. InitializeMcp env config result st = Inr st'
               \<and> \<not> is_initialized st'
               \<and> replies st' = replies st
                    @ [(result, Error ''INITIALIZATION_FAILED''
                                  ''Failed to start Node.js MCP process'')]
               \<and> child_stdin st' = child_stdin st
               \<and> pending_requests st' = pending_requests st))
       \<and> (\<forall>config_json.
             \<not> is_initialized st \<and> started
             \<and> EncodableValueToJsonString (EvMap config) = Inr config_json
             \<and> \<not> SendMessage (write_file env) p
                   (envelope ''initialize'' config_json (''init_'' @ to_string (clock env)))
             \<longrightarrow>
            (\<exists>st'. InitializeMcp env config result st = Inr st'
               \<and> \<not> is_initialized st'
               \<and> replies st' = replies st
                    @ [(result, Error ''INITIALIZATION_FAILED''
                                  ''Failed to send initialization config'')]
               \<and> child_stdin st' = child_stdin st
               \<and> pending_requests st' = pending_requests st))
       \<and> (\<forall>config_json.
             \<not> is_initialized st \<and> started
             \<and> EncodableValueToJsonString (EvMap config) = Inr config_json
             \<and> SendMessage (write_file env) p
                 (envelope ''initialize'' config_json (''init_'' @ to_string (clock env)))
             \<longrightarrow>
            (\<exists>st'. InitializeMcp env config result st = Inr st'
               \<and> is_initialized st'
               \<and> replies st' = replies st
                    @ [(result, Success (success_message ''MCP initialized successfully''))]
               \<and> child_stdin st' = child_stdin st
                    @ [envelope ''initialize'' config_json (''init_'' @ to_string (clock env))
                       @ [newline]]
               \<and> pending_requests st' = pending_requests st))"
proof (intro conjI impI allI)
  assume "is_initialized st"
  then show "InitializeMcp env config result st =
              Inr (st\<lparr>replies := replies st
                         @ [(result, Success (success_message ''Already initialized''))]\<rparr>)"
    by (simp add: InitializeMcp_def respond_def)
next
  assume "\<not> is_initialized st \<and> \<not> started"
  with assms show "\<exists>st'. InitializeMcp env config result st = Inr st'
               \<and> \<not> is_initialized st'
               \<and> replies st' = replies st
                    @ [(result, Error ''INITIALIZATION_FAILED''
                                  ''Failed to start Node.js MCP process'')]
               \<and> child_stdin st' = child_stdin st
               \<and> pending_requests st' = pending_requests st"
    by (simp add: InitializeMcp_def respond_def Let_def
          del: Start.simps EncodableValueToJsonString.simps)
next
  fix config_json
  assume "\<not> is_initialized st \<and> started
             \<and> EncodableValueToJsonString (EvMap config) = Inr config_json
             \<and> \<not> SendMessage (write_file env) p
                   (envelope ''initialize'' config_json (''init_'' @ to_string (clock env)))"
  with assms show "\<exists>st'. InitializeMcp env config result st = Inr st'
               \<and> \<not> is_initialized st'
               \<and> replies st' = replies st
                    @ [(result, Error ''INITIALIZATION_FAILED''
                                  ''Failed to send initialization config'')]
               \<and> child_stdin st' = child_stdin st
               \<and> pending_requests st' = pending_requests st"
    by (simp add: InitializeMcp_def respond_def send_to_node_def Let_def
          del: Start.simps EncodableValueToJsonString.simps)
next
  fix config_json
  assume "\<not> is_initialized st \<and> started
             \<and> EncodableValueToJsonString (EvMap config) = Inr config_json
             \<and> SendMessage (write_file env) p
                 (envelope ''initialize'' config_json (''init_'' @ to_string (clock env)))"
  with assms show "\<exists>st'. InitializeMcp env config result st = Inr st'
               \<and> is_initialized st'
               \<and> replies st' = replies st
                    @ [(result, Success (success_message ''MCP initialized successfully''))]
               \<and> child_stdin st' = child_stdin st
                    @ [envelope ''initialize'' config_json (''init_'' @ to_string (clock env))
                       @ [newline]]
               \<and> pending_requests st' = pending_requests st"
    by (simp add: InitializeMcp_def respond_def send_to_node_def Let_def
          del: Start.simps EncodableValueToJsonString.simps)
qed

text \<open>
  Witness for C9: initialize on a ready plugin; on a fresh plugin when everything works;
  when the process cannot be created; when the write to the child fails.
\<close>

theorem InitializeMcp_cases_witness:
  "InitializeMcp os_ok [] 3 ready_plugin =
     Inr (ready_plugin\<lparr>replies := [(3, Success (success_message ''Already initialized''))]\<rparr>)
   \<and> (\<exists>st'. InitializeMcp os_ok [] 3 fresh_plugin = Inr st' \<and> is_initialized st'
          \<and> replies st' = [(3, Success (success_message ''MCP initialized successfully''))]
          \<and> child_stdin st' = [envelope ''initialize'' ''{}'' ''init_42'' @ [newline]])
   \<and> (\<exists>st'. InitializeMcp os_no_node [] 3 fresh_plugin = Inr st' \<and> \<not> is_initialized st'
          \<and> replies st' = [(3, Error ''INITIALIZATION_FAILED''
                                  ''Failed to start Node.js MCP process'')])
   \<and> (\<exists>st'. InitializeMcp os_broken_pipe [] 3 fresh_plugin = Inr st'
          \<and> \<not> is_initialized st'
          \<and> replies st' = [(3, Error ''INITIALIZATION_FAILED''
                                  ''Failed to send initialization config'')])"
proof -
  have enc: "EncodableValueToJsonString (EvMap []) = Inr ''{}''"
    by simp
  have clk: "to_string 42 = ''42''"
    by code_simp
  have s0: "Start (spawn os_ok) (SetMessageCallback (node_process ready_plugin))
              = (True, running_process)"
    by (simp add: fixtures SetMessageCallback_def)
  have s1: "Start (spawn os_ok) (SetMessageCallback (node_process fresh_plugin))
              = (True, running_process)"
    by (simp add: fixtures SetMessageCallback_def)
  have s2: "Start (spawn os_no_node) (SetMessageCallback (node_process fresh_plugin))
              = (False, running_process\<lparr>is_running := False\<rparr>)"
    by (simp add: fixtures SetMessageCallback_def)
  have s3: "Start (spawn os_broken_pipe) (SetMessageCallback (node_process fresh_plugin))
              = (True, running_process)"
    by (simp add: fixtures SetMessageCallback_def)
  have t1: "SendMessage (write_file os_ok) running_process
              (envelope ''initialize'' ''{}'' (''init_'' @ to_string (clock os_ok)))"
    by (simp add: fixtures SendMessage_def)
  have t3: "\<not> SendMessage (write_file os_broken_pipe) running_process
                (envelope ''initialize'' ''{}''
                   (''init_'' @ to_string (clock os_broken_pipe)))"
    by (simp add: fixtures SendMessage_def)
  have f: "\<not> is_initialized fresh_plugin" "replies fresh_plugin = []"
    "child_stdin fresh_plugin = []" "is_initialized ready_plugin"
    "replies ready_plugin = []" "clock os_ok = 42"
    by (simp_all add: fixtures)
  show ?thesis
    using InitializeMcp_cases [OF s0, of "[]" 3]
          InitializeMcp_cases [OF s1, of "[]" 3] enc t1
          InitializeMcp_cases [OF s2, of "[]" 3]
          InitializeMcp_cases [OF s3, of "[]" 3] t3
    by (auto simp add: f clk simp del: EncodableValueToJsonString.simps)
qed

subsection \<open>The reader: lines out of chunks\<close>

lemma find_str_char_None: "find_str s [c] = None \<longleftrightarrow> c \<notin> set s"
  by (simp add: find_str_def find_from_def find_sub_char_None)

lemma find_sub_char_first:
  "c \<notin> set x \<Longrightarrow> find_sub [c] (x @ c # y) = Some (length x)"
  by (induction x) auto

lemma find_str_char_first:
  "c \<notin> set x \<Longrightarrow> find_str (x @ c # y) [c] = Some (length x)"
  by (simp add: find_str_def find_from_def find_sub_char_first)

lemma find_str_char_split:
  assumes "find_str s [c] = Some pos"
  shows "s = take pos s @ c # drop (pos + 1) s \<and> c \<notin> set (take pos s)"
proof -
  from assms have "find_sub [c] s = Some pos"
    by (simp add: find_str_def find_from_def)
  then have "pos < length s" "s ! pos = c" "c \<notin> set (take pos s)"
    by (simp_all add: find_sub_char_Some)
  with id_take_nth_drop [of pos s] show ?thesis
    by simp
qed

lemma drain_lines_no_newline:
  assumes "newline \<notin> set s"
  shows "drain_lines callback s st = (s, st)"
proof -
  from assms have "find_str s [newline] = None"
    by (simp add: find_str_char_None)
  then show ?thesis
    by (subst drain_lines.simps) simp
qed

lemma drain_lines_line:
  "newline \<notin> set x \<Longrightarrow>
   drain_lines callback (x @ newline # y) st =
     drain_lines callback y
       (if x \<noteq> [] then (case callback of Some f \<Rightarrow> f x st | None \<Rightarrow> st) else st)"
  by (subst drain_lines.simps) (simp add: find_str_char_first substr_def Let_def)

text \<open>
  The inner loop cuts the buffer into its newline-terminated lines and the rest after
  the last newline, and calls the callback on the non-empty lines, in order.
\<close>

lemma drain_lines_lines:
  "\<exists>ls rest. drain_lines (Some f) s st = (rest, fold f (filter (\<lambda>l. l \<noteq> []) ls) st)
      \<and> s = concat (map (\<lambda>l. l @ [newline]) ls) @ rest
      \<and> (\<forall>l\<in>set ls. newline \<notin> set l) \<and> newline \<notin> set rest"
proof (induction s arbitrary: st rule: length_induct)
  case (1 s)
  show ?case
  proof (cases "find_str s [newline]")
    case None
    then have "newline \<notin> set s"
      by (simp add: find_str_char_None)
    then have "drain_lines (Some f) s st = (s, fold f (filter (\<lambda>l. l \<noteq> []) []) st)
      \<and> s = concat (map (\<lambda>l. l @ [newline]) []) @ s
      \<and> (\<forall>l\<in>set []. newline \<notin> set l) \<and> newline \<notin> set s"
      by (simp add: drain_lines_no_newline)
    then show ?thesis by blast
  next
    case (Some pos)
    define x where "x = take pos s"
    define y where "y = drop (pos + 1) s"
    from find_str_char_split [OF Some]
    have s: "s = x @ newline # y" and x: "newline \<notin> set x"
      by (simp_all add: x_def y_def)
    define st1 where "st1 = (if x \<noteq> [] then f x st else st)"
    from s have "length y < length s" by simp
    with "1.IH" obtain ls rest where
      d: "drain_lines (Some f) y st1 = (rest, fold f (filter (\<lambda>l. l \<noteq> []) ls) st1)"
      and y: "y = concat (map (\<lambda>l. l @ [newline]) ls) @ rest"
      and ls: "\<forall>l\<in>set ls. newline \<notin> set l" and rest: "newline \<notin> set rest"
      by blast
    have "drain_lines (Some f) s st = drain_lines (Some f) y st1"
      by (subst s) (simp add: drain_lines_line [OF x] st1_def)
    with d
    have "drain_lines (Some f) s st = (rest, fold f (filter (\<lambda>l. l \<noteq> []) (x # ls)) st)"
      by (simp add: st1_def)
    moreover from s y have "s = concat (map (\<lambda>l. l @ [newline]) (x # ls)) @ rest"
      by simp
    moreover from x ls have "\<forall>l\<in>set (x # ls). newline \<notin> set l"
      by simp
    ultimately show ?thesis
      using rest by blast
  qed
qed

lemma c_str_id: "CHR 0x00 \<notin> set c \<Longrightarrow> c_str c = c"
  by (auto simp add: c_str_def takeWhile_eq_all_conv)

text \<open>
  The same over a sequence of successful reads: what counts is the text of the chunks
  put end to end, not where one read stops and the next begins.
\<close>

lemma ReadOutputThread_lines:
  assumes p: "is_running p" "child_stdout_read p" "message_callback p"
  shows "\<forall>c\<in>set chunks. c \<noteq> [] \<Longrightarrow> newline \<notin> set acc \<Longrightarrow>
     \<exists>ls rest. ReadOutputThread handler p (map ReadOk chunks) acc st
                  = (rest, fold handler (filter (\<lambda>l. l \<noteq> []) ls) st)
      \<and> acc @ concat (map c_str chunks) = concat (map (\<lambda>l. l @ [newline]) ls) @ rest
      \<and> (\<forall>l\<in>set ls. newline \<notin> set l) \<and> newline \<notin> set rest"
proof (induction chunks arbitrary: acc st)
  case Nil
  then have "ReadOutputThread handler p (map ReadOk []) acc st
                  = (acc, fold handler (filter (\<lambda>l. l \<noteq> []) []) st)
      \<and> acc @ concat (map c_str []) = concat (map (\<lambda>l. l @ [newline]) []) @ acc
      \<and> (\<forall>l\<in>set []. newline \<notin> set l) \<and> newline \<notin> set acc"
    by simp
  then show ?case by blast
next
  case (Cons c cs)
  obtain ls1 rest1 where
    d: "drain_lines (Some handler) (acc @ c_str c) st
          = (rest1, fold handler (filter (\<lambda>l. l \<noteq> []) ls1) st)"
    and s1: "acc @ c_str c = concat (map (\<lambda>l. l @ [newline]) ls1) @ rest1"
    and l1: "\<forall>l\<in>set ls1. newline \<notin> set l" and r1: "newline \<notin> set rest1"
    using drain_lines_lines [of handler "acc @ c_str c" st] by blast
  define st1 where "st1 = fold handler (filter (\<lambda>l. l \<noteq> []) ls1) st"
  from Cons.prems have cs: "\<forall>c\<in>set cs. c \<noteq> []" and c: "c \<noteq> []"
    by simp_all
  from Cons.IH [OF cs r1, of st1] obtain ls2 rest2 where
    r: "ReadOutputThread handler p (map ReadOk cs) rest1 st1
          = (rest2, fold handler (filter (\<lambda>l. l \<noteq> []) ls2) st1)"
    and s2: "rest1 @ concat (map c_str cs) = concat (map (\<lambda>l. l @ [newline]) ls2) @ rest2"
    and l2: "\<forall>l\<in>set ls2. newline \<notin> set l" and r2: "newline \<notin> set rest2"
    by blast
  from p c d r have "ReadOutputThread handler p (map ReadOk (c # cs)) acc st
          = (rest2, fold handler (filter (\<lambda>l. l \<noteq> []) (ls1 @ ls2)) st)"
    by (simp add: st1_def)
  moreover have "acc @ concat (map c_str (c # cs))
          = concat (map (\<lambda>l. l @ [newline]) (ls1 @ ls2)) @ rest2"
  proof -
    have "acc @ concat (map c_str (c # cs)) = (acc @ c_str c) @ concat (map c_str cs)"
      by simp
    also have "\<dots> = concat (map (\<lambda>l. l @ [newline]) ls1) @ (rest1 @ concat (map c_str cs))"
      by (simp only: s1 append_assoc)
    also have "\<dots> = concat (map (\<lambda>l. l @ [newline]) (ls1 @ ls2)) @ rest2"
      by (simp only: s2) simp
    finally show ?thesis .
  qed
  moreover from l1 l2 have "\<forall>l\<in>set (ls1 @ ls2). newline \<notin> set l"
    by auto
  ultimately show ?case
    using r2 by blast
qed

text \<open>
  A text has only one such splitting: lines without newline, each followed by a
  newline, then a rest without newline.
\<close>

lemma line_prefix_unique:
  "c \<notin> set x \<Longrightarrow> c \<notin> set y \<Longrightarrow> x @ c # u = y @ c # v \<Longrightarrow> x = y \<and> u = v"
proof (induction x arbitrary: y)
  case Nil
  then show ?case by (cases y) simp_all
next
  case (Cons a x)
  show ?case
  proof (cases y)
    case Nil
    with Cons.prems show ?thesis by simp
  next
    case (Cons b y')
    with Cons.prems have "a = b" "c \<notin> set x" "c \<notin> set y'" "x @ c # u = y' @ c # v"
      by simp_all
    with Cons.IH [of y'] Cons show ?thesis by simp
  qed
qed

lemma lines_unique:
  "(\<forall>l\<in>set ls. c \<notin> set l) \<Longrightarrow> c \<notin> set rest \<Longrightarrow>
   (\<forall>l\<in>set ls'. c \<notin> set l) \<Longrightarrow> c \<notin> set rest' \<Longrightarrow>
   concat (map (\<lambda>l. l @ [c]) ls) @ rest = concat (map (\<lambda>l. l @ [c]) ls') @ rest' \<Longrightarrow>
   ls = ls' \<and> rest = rest'"
proof (induction ls arbitrary: ls')
  case Nil
  show ?case
  proof (cases ls')
    case Nil
    with Nil.prems show ?thesis by simp
  next
    case (Cons l' ls'')
    with Nil.prems have "rest = l' @ c # (concat (map (\<lambda>l. l @ [c]) ls'') @ rest')"
      by simp
    then have "c \<in> set rest" by simp
    with Nil.prems show ?thesis by simp
  qed
next
  case (Cons l ls)
  show ?case
  proof (cases ls')
    case Nil
    with Cons.prems have "rest' = l @ c # (concat (map (\<lambda>l. l @ [c]) ls) @ rest)"
      by simp
    then have "c \<in> set rest'" by simp
    with Cons.prems show ?thesis by simp
  next
    case (Cons l' ls'')
    from Cons.prems(5) Cons
    have eq: "l @ c # (concat (map (\<lambda>l. l @ [c]) ls) @ rest)
            = l' @ c # (concat (map (\<lambda>l. l @ [c]) ls'') @ rest')"
      by simp
    from Cons.prems(1) have l: "c \<notin> set l" by simp
    from Cons.prems(3) Cons have l': "c \<notin> set l'" by simp
    from line_prefix_unique [OF l l' eq]
    have h: "l = l'"
      and t: "concat (map (\<lambda>l. l @ [c]) ls) @ rest = concat (map (\<lambda>l. l @ [c]) ls'') @ rest'"
      by simp_all
    from Cons.prems(1) have a: "\<forall>l\<in>set ls. c \<notin> set l" by simp
    from Cons.prems(3) Cons have b: "\<forall>l\<in>set ls''. c \<notin> set l" by simp
    from Cons.IH [OF a Cons.prems(2) b Cons.prems(4) t] h Cons show ?thesis
      by simp
  qed
qed

text \<open>
  Claim C8, as amended. While the process runs and the callback is set, for every
  sequence of successful reads whose chunks hold no zero byte: the text read so far
  splits in exactly one way into newline-terminated lines followed by a rest without
  newline; the callback has been called once on each of these lines that is not empty,
  in order, and on nothing else; the rest is kept in the buffer for the next read. In
  particular a non-empty line that arrives in two reads gives no call after the first
  read and one call, with the whole line, after the second. An empty line gives no
  call.
\<close>

theorem reader_emits_nonempty_lines:
  assumes "is_running p \<and> child_stdout_read p \<and> message_callback p"
  shows "((\<forall>c\<in>set chunks. c \<noteq> [] \<and> CHR 0x00 \<notin> set c) \<longrightarrow>
           (\<exists>ls rest. ReadOutputThread handler p (map ReadOk chunks) [] st
                         = (rest, fold handler (filter (\<lambda>l. l \<noteq> []) ls) st)
              \<and> concat chunks = concat (map (\<lambda>l. l @ [newline]) ls) @ rest
              \<and> (\<forall>l\<in>set ls. newline \<notin> set l) \<and> newline \<notin> set rest))
       \<and> (a \<noteq> [] \<and> newline \<notin> set a \<and> CHR 0x00 \<notin> set a
            \<and> newline \<notin> set b \<and> CHR 0x00 \<notin> set b \<longrightarrow>
           ReadOutputThread handler p [ReadOk a] [] st = (a, st)
           \<and> ReadOutputThread handler p [ReadOk a, ReadOk (b @ [newline])] [] st
               = ([], handler (a @ b) st))"
proof (intro conjI impI)
  assume chunks: "\<forall>c\<in>set chunks. c \<noteq> [] \<and> CHR 0x00 \<notin> set c"
  then have "map c_str chunks = chunks"
    by (simp add: map_idI c_str_id)
  moreover from chunks have "\<forall>c\<in>set chunks. c \<noteq> []"
    by simp
  ultimately show "\<exists>ls rest. ReadOutputThread handler p (map ReadOk chunks) [] st
                         = (rest, fold handler (filter (\<lambda>l. l \<noteq> []) ls) st)
              \<and> concat chunks = concat (map (\<lambda>l. l @ [newline]) ls) @ rest
              \<and> (\<forall>l\<in>set ls. newline \<notin> set l) \<and> newline \<notin> set rest"
    using ReadOutputThread_lines [of p chunks "[]" handler st] assms by simp
next
  assume ab: "a \<noteq> [] \<and> newline \<notin> set a \<and> CHR 0x00 \<notin> set a
            \<and> newline \<notin> set b \<and> CHR 0x00 \<notin> set b"
  then have nul: "CHR 0x00 \<notin> set (b @ [newline])"
    by (simp add: newline_def)
  from ab assms show "ReadOutputThread handler p [ReadOk a] [] st = (a, st)"
    by (simp add: c_str_id drain_lines_no_newline)
  from ab have "newline \<notin> set (a @ b)" by simp
  from drain_lines_line [OF this, of "Some handler" "[]" st] ab
  have "drain_lines (Some handler) (a @ b @ [newline]) st = ([], handler (a @ b) st)"
    by (simp add: drain_lines_no_newline)
  with ab assms nul
  show "ReadOutputThread handler p [ReadOk a, ReadOk (b @ [newline])] [] st
               = ([], handler (a @ b) st)"
    by (simp add: c_str_id drain_lines_no_newline)
qed

text \<open>
  Witness for C8 as amended: the event line read in two pieces. After the first piece
  nothing has been recorded and the piece is in the buffer; after the second the whole
  line has been recorded once and the buffer is empty.
\<close>

theorem reader_emits_nonempty_lines_witness:
  "(\<exists>ls rest. ReadOutputThread record_line running_process
                 (map ReadOk [event_chunk_1, event_chunk_2 @ [newline]]) [] []
                = (rest, fold record_line (filter (\<lambda>l. l \<noteq> []) ls) [])
       \<and> concat [event_chunk_1, event_chunk_2 @ [newline]]
           = concat (map (\<lambda>l. l @ [newline]) ls) @ rest
       \<and> (\<forall>l\<in>set ls. newline \<notin> set l) \<and> newline \<notin> set rest)
   \<and> ReadOutputThread record_line running_process [ReadOk event_chunk_1] [] []
       = (event_chunk_1, [])
   \<and> ReadOutputThread record_line running_process
        [ReadOk event_chunk_1, ReadOk (event_chunk_2 @ [newline])] [] []
       = ([], [event_line])"
proof -
  have p: "is_running running_process \<and> child_stdout_read running_process
             \<and> message_callback running_process"
    by (simp add: fixtures)
  have ab: "event_chunk_1 \<noteq> [] \<and> newline \<notin> set event_chunk_1
             \<and> CHR 0x00 \<notin> set event_chunk_1
             \<and> newline \<notin> set event_chunk_2 \<and> CHR 0x00 \<notin> set event_chunk_2"
    by (simp add: event_chunk_1_def event_chunk_2_def newline_def)
  then have cs: "\<forall>c\<in>set [event_chunk_1, event_chunk_2 @ [newline]].
                   c \<noteq> [] \<and> CHR 0x00 \<notin> set c"
    by (simp add: newline_def)
  have j: "event_chunk_1 @ event_chunk_2 = event_line"
    by (simp add: event_chunk_1_def event_chunk_2_def event_line_def)
  note t = reader_emits_nonempty_lines
             [OF p, of "[event_chunk_1, event_chunk_2 @ [newline]]" record_line "[]"
                event_chunk_1 event_chunk_2]
  from t cs
  have e: "\<exists>ls rest. ReadOutputThread record_line running_process
                 (map ReadOk [event_chunk_1, event_chunk_2 @ [newline]]) [] []
                = (rest, fold record_line (filter (\<lambda>l. l \<noteq> []) ls) [])
       \<and> concat [event_chunk_1, event_chunk_2 @ [newline]]
           = concat (map (\<lambda>l. l @ [newline]) ls) @ rest
       \<and> (\<forall>l\<in>set ls. newline \<notin> set l) \<and> newline \<notin> set rest"
    by blast
  from t ab
  have "ReadOutputThread record_line running_process [ReadOk event_chunk_1] [] []
          = (event_chunk_1, [])
      \<and> ReadOutputThread record_line running_process
          [ReadOk event_chunk_1, ReadOk (event_chunk_2 @ [newline])] [] []
          = ([], record_line (event_chunk_1 @ event_chunk_2) [])"
    by blast
  then have "ReadOutputThread record_line running_process [ReadOk event_chunk_1] [] []
          = (event_chunk_1, [])
      \<and> ReadOutputThread record_line running_process
          [ReadOk event_chunk_1, ReadOk (event_chunk_2 @ [newline])] [] []
          = ([], [event_line])"
    by (simp only: j record_line_def append_Nil)
  with e show ?thesis
    by blast
qed

text \<open>
  Claim C8 as stated fails: a read that holds three newlines, two of them one after
  the other, gives two calls of the callback, not three.
\<close>

theorem blank_line_gives_no_message:
  "count_list blank_line_chunk newline = 3
   \<and> ReadOutputThread record_line running_process [ReadOk blank_line_chunk] [] []
       = ([], [''a'', ''b''])"
  by code_simp

subsection \<open>Responses: success or failure\<close>

text \<open>
  Claim C6, as amended. For a response line whose request id reads as \<open>r\<close>, with
  caller \<open>h\<close> pending under \<open>r\<close>: the caller is answered \<open>MCP_ERROR\<close> when the line holds
  the text \<^verbatim>\<open>"error":\<close> somewhere and the text \<^verbatim>\<open>"error":null\<close> nowhere, and is answered
  success with the line as data otherwise; the entry is removed. Both are searches for a
  piece of text over the whole line, wherever it stands.
\<close>

theorem response_outcome_by_substring:
  assumes "kind_of m = response" and "request_id_of m = Some r"
    and "pending_requests st r = Some h"
  shows "HandleNodeMessage m st =
           st\<lparr>replies := replies st
                  @ [(h, if find_str m error_key \<noteq> None \<and> find_str m error_null = None
                         then Error ''MCP_ERROR'' ''Error processing request''
                         else Success (JsonStringToEncodableValue m))],
               pending_requests := (pending_requests st)(r := None)\<rparr>"
  using assms by (simp add: HandleNodeMessage_response respond_def reports_error_def)

text \<open>
  Witness for C6 as amended: the two response lines of the specification's scenarios.
  The line with an error object fails the caller, the line with a null error succeeds.
\<close>

theorem response_outcome_by_substring_witness:
  "replies (HandleNodeMessage error_line waiting_plugin)
     = [(1, Error ''MCP_ERROR'' ''Error processing request'')]
   \<and> replies (HandleNodeMessage success_line waiting_plugin)
     = [(1, Success (JsonStringToEncodableValue success_line))]
   \<and> pending_requests (HandleNodeMessage error_line waiting_plugin) ''1'' = None"
proof -
  have p: "pending_requests waiting_plugin ''1'' = Some 1" "replies waiting_plugin = []"
    by (simp_all add: fixtures)
  have e: "find_str error_line error_key = Some 35" "find_str error_line error_null = None"
    by code_simp+
  have s: "find_str success_line error_null = Some 35"
    by code_simp
  show ?thesis
    using response_outcome_by_substring [OF error_line_fields(1,2) p(1)]
          response_outcome_by_substring [OF success_line_fields(1,2) p(1)]
    by (simp add: p e s)
qed

text \<open>
  Claim C6 as stated fails on nested content. The line below is the compact text of a
  response whose own error field is an object, so present and not null; inside that
  object a field named \<open>error\<close> is null. The caller pending under "1" is answered
  success.
\<close>

theorem nested_error_null_counts_as_success:
  "json_render (JObject nested_error_members) = nested_error_line
   \<and> error_present_non_null nested_error_members
   \<and> kind_of nested_error_line = response
   \<and> request_id_of nested_error_line = Some ''1''
   \<and> pending_requests waiting_plugin ''1'' = Some 1
   \<and> replies (HandleNodeMessage nested_error_line waiting_plugin)
       = [(1, Success (JsonStringToEncodableValue nested_error_line))]"
proof -
  have r: "json_render (JObject nested_error_members) = nested_error_line"
    by code_simp
  have n: "error_present_non_null nested_error_members"
    by (simp add: error_present_non_null_def nested_error_members_def)
  have k: "kind_of nested_error_line = response"
    by code_simp
  have i: "request_id_of nested_error_line = Some ''1''"
    by code_simp
  have e: "\<not> reports_error nested_error_line"
    by code_simp
  have p: "pending_requests waiting_plugin ''1'' = Some 1" "replies waiting_plugin = []"
    by (simp_all add: fixtures)
  have "replies (HandleNodeMessage nested_error_line waiting_plugin)
       = [(1, Success (JsonStringToEncodableValue nested_error_line))]"
    by (simp add: HandleNodeMessage_response k i e p respond_def)
  with r n k i p show ?thesis by simp
qed

subsection \<open>Who can still be answered\<close>

text \<open>
  No step answers or registers a caller out of nothing: the callers answered or
  pending after a step were answered or pending before it, or are the caller of the
  step itself.
\<close>

lemma ran_upd_subset: "ran (m(k \<mapsto> v)) \<subseteq> insert v (ran m)"
  by (auto simp add: ran_def)

lemma ran_del_subset: "ran (m(k := None)) \<subseteq> ran m"
  by (auto simp add: ran_def)

lemma live_respond: "live_handles (respond h r st) = insert h (live_handles st)"
  by (auto simp add: live_handles_def replied_def respond_def)

lemma live_send: "live_handles (snd (send_to_node w msg st)) = live_handles st"
  by (simp add: live_handles_def replied_def send_to_node_def)

lemma send_to_node_cases:
  "send_to_node w msg st = (b, st') \<Longrightarrow> live_handles st' = live_handles st"
  using live_send [of w msg st] by simp

lemma live_HandleNodeMessage: "live_handles (HandleNodeMessage m st) \<subseteq> live_handles st"
proof (cases "kind_of m")
  case response
  show ?thesis
  proof (cases "request_id_of m")
    case None
    with response show ?thesis by (simp add: HandleNodeMessage_response)
  next
    case (Some r)
    show ?thesis
    proof (cases "pending_requests st r")
      case None
      with response Some show ?thesis by (simp add: HandleNodeMessage_response)
    next
      case (Some h)
      then have "h \<in> ran (pending_requests st)"
        by (auto simp add: ran_def)
      with response \<open>request_id_of m = Some r\<close> Some ran_del_subset [of "pending_requests st" r]
      show ?thesis
        by (auto simp add: HandleNodeMessage_response live_handles_def replied_def respond_def)
    qed
  qed
next
  case event
  then show ?thesis
    by (simp add: HandleNodeMessage_event live_handles_def replied_def split: option.splits)
next
  case unknown
  then show ?thesis by (simp add: HandleNodeMessage_unknown)
qed


lemma live_updates [simp]:
  "live_handles (st\<lparr>node_process := p\<rparr>) = live_handles st"
  "live_handles (st\<lparr>is_initialized := b\<rparr>) = live_handles st"
  "live_handles (st\<lparr>stream_handler := sh\<rparr>) = live_handles st"
  "live_handles (st\<lparr>child_stdin := ws\<rparr>) = live_handles st"
  "live_handles (st\<lparr>events := es\<rparr>) = live_handles st"
  by (simp_all add: live_handles_def replied_def)

lemma live_register:
  "live_handles (st\<lparr>pending_requests := (pending_requests st)(k \<mapsto> h)\<rparr>)
     \<subseteq> insert h (live_handles st)"
  using ran_upd_subset [of "pending_requests st" k h]
  by (auto simp add: live_handles_def replied_def)

lemma live_erase:
  "live_handles (st\<lparr>pending_requests := (pending_requests st)(k := None)\<rparr>)
     \<subseteq> live_handles st"
  using ran_del_subset [of "pending_requests st" k]
  by (auto simp add: live_handles_def replied_def)

lemma live_InitializeMcp:
  "live_handles (state_of (InitializeMcp env config result st))
     \<subseteq> insert result (live_handles st)"
  by (auto simp add: InitializeMcp_def live_respond Let_def dest!: send_to_node_cases
        simp del: Start.simps EncodableValueToJsonString.simps
        split: prod.splits sum.splits bool.splits)

lemma live_ProcessMessage:
  "live_handles (state_of (ProcessMessage env request result st))
     \<subseteq> insert result (live_handles st)"
  by (auto simp add: ProcessMessage_def live_handles_def replied_def respond_def
        send_to_node_def ran_def Let_def
        simp del: EncodableValueToJsonString.simps
        split: option.splits EncodableValue.splits sum.splits if_splits)

lemma live_StreamMessage:
  "live_handles (state_of (StreamMessage env request result st))
     \<subseteq> insert result (live_handles st)"
  by (auto simp add: StreamMessage_def live_respond Let_def dest!: send_to_node_cases
        simp del: EncodableValueToJsonString.simps
        split: option.splits EncodableValue.splits sum.splits prod.splits bool.splits)

lemma live_simple_calls:
  "live_handles (state_of (TestConnection request result st)) \<subseteq> insert result (live_handles st)"
  "live_handles (state_of (GetCapabilities request result st)) \<subseteq> insert result (live_handles st)"
  "live_handles (state_of (InjectContext request result st)) \<subseteq> insert result (live_handles st)"
  by (auto simp add: TestConnection_def GetCapabilities_def InjectContext_def live_respond)

lemma live_DisposeMcp:
  "live_handles (state_of (DisposeMcp result st)) \<subseteq> insert result (live_handles st)"
  by (auto simp add: DisposeMcp_def live_respond)

lemma live_HandleMethodCall:
  "live_handles (state_of (HandleMethodCall env method arguments result st))
     \<subseteq> insert result (live_handles st)"
proof (cases arguments)
  case None
  then show ?thesis
    by (simp add: HandleMethodCall_def live_respond)
next
  case (Some v)
  show ?thesis
  proof (cases v)
    case (EvMap args)
    with Some show ?thesis
      using live_InitializeMcp [of env args result st] live_ProcessMessage [of env args result st]
        live_StreamMessage [of env args result st] live_simple_calls [of args result st]
        live_DisposeMcp [of result st]
      by (simp add: HandleMethodCall_def live_respond)
  qed (simp_all add: Some HandleMethodCall_def live_respond)
qed

lemma live_step:
  "live_handles (state_of (step i st)) \<subseteq> call_handles i \<union> live_handles st"
proof (cases i)
  case (MethodCall env name args result)
  with live_HandleMethodCall [of env name args result st] show ?thesis
    by simp
next
  case (NodeLine message)
  with live_HandleNodeMessage [of message st] show ?thesis
    by simp
qed simp_all

lemma live_run:
  "live_handles (state_of (run inputs st)) \<subseteq> \<Union> (call_handles ` set inputs) \<union> live_handles st"
proof (induction inputs arbitrary: st)
  case Nil
  then show ?case by simp
next
  case (Cons i inputs)
  show ?case
  proof (cases "step i st")
    case (Inl x)
    with live_step [of i st] show ?thesis
      by (cases x) auto
  next
    case (Inr st1)
    with live_step [of i st] Cons.IH [of st1] show ?thesis
      by auto
  qed
qed


lemma displaced_not_live:
  assumes "is_initialized st"
    and "map_find request (EvString ''requestId'') = Some (EvString r)"
    and "new \<noteq> old"
    and "old \<notin> replied st"
    and "\<forall>k. k \<noteq> r \<longrightarrow> pending_requests st k \<noteq> Some old"
  shows "old \<notin> live_handles (state_of (ProcessMessage env request new st))"
proof -
  let ?st1 = "st\<lparr>pending_requests := (pending_requests st)(r \<mapsto> new)\<rparr>"
  from assms(3,5) have ran1: "old \<notin> ran ((pending_requests st)(r \<mapsto> new))"
    by (auto simp add: ran_def)
  with ran_del_subset [of "(pending_requests st)(r \<mapsto> new)" r]
  have ran2: "old \<notin> ran (((pending_requests st)(r \<mapsto> new))(r := None))"
    by blast
  from ran1 ran2 assms(1-4) show ?thesis
    by (auto simp add: ProcessMessage_def live_handles_def replied_def respond_def
          send_to_node_def Let_def
          simp del: EncodableValueToJsonString.simps fun_upd_upd
          split: sum.splits if_splits)
qed

subsection \<open>processMessage: a request id that is already pending\<close>

text \<open>
  Claim C10, as amended. On an initialized plugin, let caller \<open>old\<close> be pending under
  \<open>r\<close> (and nowhere else, and not yet answered) when \<open>ProcessMessage\<close> is called by
  another caller \<open>new\<close> with the same request id. Then the call answers \<open>old\<close> with
  nothing and takes it out of the table, and no later run of the plugin answers it
  either, whatever calls and lines follow. When the send succeeds the entry under \<open>r\<close>
  is the new caller's and nobody is answered by the call; when the send fails the new
  caller is answered \<open>SEND_FAILED\<close> and no entry is left under \<open>r\<close>.
\<close>

theorem overwritten_caller_never_answered:
  assumes "is_initialized st"
    and "map_find request (EvString ''requestId'') = Some (EvString r)"
    and "pending_requests st r = Some old"
    and "new \<noteq> old"
    and "old \<notin> replied st"
    and "\<forall>k. k \<noteq> r \<longrightarrow> pending_requests st k \<noteq> Some old"
    and "old \<notin> \<Union> (call_handles ` set inputs)"
  shows "old \<notin> live_handles (state_of (ProcessMessage env request new st))
       \<and> old \<notin> replied (state_of (then_run (ProcessMessage env request new st) inputs))
       \<and> (\<forall>params_json.
             EncodableValueToJsonString (EvMap request) = Inr params_json
             \<and> SendMessage (write_file env) (node_process st)
                 (envelope ''processMessage'' params_json r)
             \<longrightarrow> ProcessMessage env request new st =
                   Inr (st\<lparr>pending_requests := (pending_requests st)(r \<mapsto> new),
                            child_stdin := child_stdin st
                              @ [envelope ''processMessage'' params_json r @ [newline]]\<rparr>))
       \<and> (\<forall>params_json.
             EncodableValueToJsonString (EvMap request) = Inr params_json
             \<and> \<not> SendMessage (write_file env) (node_process st)
                   (envelope ''processMessage'' params_json r)
             \<longrightarrow> ProcessMessage env request new st =
                   Inr (st\<lparr>pending_requests := (pending_requests st)(r := None),
                            replies := replies st
                              @ [(new, Error ''SEND_FAILED''
                                         ''Failed to send message to MCP process'')]\<rparr>))"
proof (intro conjI allI impI)
  show a: "old \<notin> live_handles (state_of (ProcessMessage env request new st))"
    using assms(1,2,4,5,6) by (rule displaced_not_live)
  show "old \<notin> replied (state_of (then_run (ProcessMessage env request new st) inputs))"
  proof (cases "ProcessMessage env request new st")
    case (Inl x)
    with a show ?thesis
      by (simp add: then_run_def live_handles_def)
  next
    case (Inr st1)
    with a have "old \<notin> live_handles st1"
      by simp
    with live_run [of inputs st1] assms(7)
    have "old \<notin> live_handles (state_of (run inputs st1))"
      by blast
    with Inr show ?thesis
      by (simp add: then_run_def live_handles_def)
  qed
next
  fix params_json
  assume "EncodableValueToJsonString (EvMap request) = Inr params_json
             \<and> SendMessage (write_file env) (node_process st)
                 (envelope ''processMessage'' params_json r)"
  with assms(1,2) show "ProcessMessage env request new st =
                   Inr (st\<lparr>pending_requests := (pending_requests st)(r \<mapsto> new),
                            child_stdin := child_stdin st
                              @ [envelope ''processMessage'' params_json r @ [newline]]\<rparr>)"
    by (simp add: ProcessMessage_def send_to_node_def
          del: EncodableValueToJsonString.simps)
next
  fix params_json
  assume "EncodableValueToJsonString (EvMap request) = Inr params_json
             \<and> \<not> SendMessage (write_file env) (node_process st)
                   (envelope ''processMessage'' params_json r)"
  with assms(1,2) show "ProcessMessage env request new st =
                   Inr (st\<lparr>pending_requests := (pending_requests st)(r := None),
                            replies := replies st
                              @ [(new, Error ''SEND_FAILED''
                                         ''Failed to send message to MCP process'')]\<rparr>)"
    by (simp add: ProcessMessage_def send_to_node_def respond_def
          del: EncodableValueToJsonString.simps)
qed

text \<open>
  Witness for C10 as amended: caller 2 sends request "1" while caller 1 waits under
  "1"; then the response for "1" arrives and the plugin is disposed. Callers 2 and 3
  are answered, caller 1 never.
\<close>

theorem overwritten_caller_never_answered_witness:
  "pending_requests (state_of (ProcessMessage os_ok request_1 2 waiting_plugin)) ''1'' = Some 2
   \<and> 1 \<notin> replied (state_of (then_run (ProcessMessage os_ok request_1 2 waiting_plugin)
                                [NodeLine success_line, dispose_call]))
   \<and> replies (state_of (then_run (ProcessMessage os_ok request_1 2 waiting_plugin)
                          [NodeLine success_line, dispose_call]))
       = [(2, Success (JsonStringToEncodableValue success_line)),
          (3, Success (success_message ''MCP disposed''))]"
proof -
  have h: "is_initialized waiting_plugin"
    "map_find request_1 (EvString ''requestId'') = Some (EvString ''1'')"
    "pending_requests waiting_plugin ''1'' = Some 1"
    "(2::nat) \<noteq> 1"
    "1 \<notin> replied waiting_plugin"
    "\<forall>k. k \<noteq> ''1'' \<longrightarrow> pending_requests waiting_plugin k \<noteq> Some 1"
    "1 \<notin> \<Union> (call_handles ` set [NodeLine success_line, dispose_call])"
    by (simp_all add: fixtures map_find_def replied_def dispose_call_def)
  obtain pj where enc: "EncodableValueToJsonString (EvMap request_1) = Inr pj"
    by (simp add: fixtures)
  have snd: "SendMessage (write_file os_ok) (node_process waiting_plugin)
               (envelope ''processMessage'' pj ''1'')"
    by (simp add: fixtures SendMessage_def)
  have r: "replies (state_of (then_run (ProcessMessage os_ok request_1 2 waiting_plugin)
                          [NodeLine success_line, dispose_call]))
       = [(2, Success (JsonStringToEncodableValue success_line)),
          (3, Success (success_message ''MCP disposed''))]"
    by code_simp
  show ?thesis
    using overwritten_caller_never_answered [OF h, of os_ok] enc snd r
    by auto
qed

text \<open>
  Claim C10 as stated fails when the send fails: caller 2 re-registers "1" while the
  pipe is broken, and afterwards no entry is pending under "1", not one.
\<close>

theorem reregistration_with_failed_send:
  "pending_requests waiting_plugin ''1'' = Some 1
   \<and> pending_requests (state_of (ProcessMessage os_broken_pipe request_1 2 waiting_plugin)) ''1''
       = None
   \<and> replies (state_of (ProcessMessage os_broken_pipe request_1 2 waiting_plugin))
       = [(2, Error ''SEND_FAILED'' ''Failed to send message to MCP process'')]"
  by (simp add: fixtures ProcessMessage_def map_find_def send_to_node_def SendMessage_def respond_def)

end
